theory Spec2Isabelle
  imports
    Main
    "HOL-Library.Word"
    "HOL-Library.Signed_Division"
    "HOL-Library.Monad_Syntax"
    "HOL-Library.Finite_Map"
begin

unbundle bit_operations_syntax

section \<open>The scalar lattice layout of QDP++ and its in-memory map object\<close>

text \<open>
  The C++ type \<open>int\<close> has 32 bits. The one computation of the layout that a lattice size
  can drive out of that range is the product of the extents in \<open>create\<close>: the compiled
  code multiplies in two's complement and keeps the low 32 bits, and so does the model
  (\<open>int_mul\<close>). The rest of the arithmetic is modelled in \<^typ>\<open>int\<close>: for a lattice whose
  volume fits an \<open>int\<close> the layouts compute with values between 0 and the volume.
  \<open>/\<close> and \<open>%\<close>
  truncate towards zero (\<open>sdiv\<close>, \<open>smod\<close>), \<open>>>\<close> and \<open><<\<close> are \<open>drop_bit\<close> and
  \<open>push_bit\<close>, \<open>&\<close> and \<open>^\<close> are \<open>AND\<close> and \<open>XOR\<close> on two's complement integers.
  A \<open>multi1d<int>\<close> is an \<^typ>\<open>int list\<close>. Its \<open>operator[]\<close> is unchecked, and a division
  by zero traps: both are undefined behaviour, which the model makes the value \<open>None\<close>.
\<close>

subsection \<open>Unchecked element access and division\<close>

definition elem :: "'a list \<Rightarrow> nat \<Rightarrow> 'a option" where
  "elem xs i = (if i < length xs then Some (xs ! i) else None)"

definition assign :: "'a list \<Rightarrow> nat \<Rightarrow> 'a \<Rightarrow> 'a list option" where
  "assign xs i v = (if i < length xs then Some (xs[i := v]) else None)"

definition c_div :: "int \<Rightarrow> int \<Rightarrow> int option" where
  "c_div a b = (if b = 0 then None else Some (a sdiv b))"

definition c_mod :: "int \<Rightarrow> int \<Rightarrow> int option" where
  "c_mod a b = (if b = 0 then None else Some (a smod b))"

text \<open>The value that a 32-bit \<open>int\<close> holds for the arithmetic result \<open>x\<close>, and the
  multiplication \<open>a * b\<close> of two \<open>int\<close>.\<close>

definition int32 :: "int \<Rightarrow> int" where
  "int32 x = signed_take_bit 31 x"

definition int_mul :: "int \<Rightarrow> int \<Rightarrow> int" where
  "int_mul a b = int32 (a * b)"

text \<open>\<open>multi1d::resize(n)\<close> allocates \<open>n\<close> fresh elements whose contents are
  indeterminate. The layout assigns to every element after each \<open>resize\<close>; the model
  fills the fresh storage with the value \<open>indeterminate\<close>, which none of the assignments
  writes, so that no result can come from the fresh storage itself.\<close>

definition indeterminate :: int where
  "indeterminate = - 1"

definition resize :: "nat \<Rightarrow> int list \<Rightarrow> int list" where
  "resize n xs = replicate n indeterminate"

subsection \<open>The layout state\<close>

record LocalLayout_t =
  vol :: int
  nrow :: "int list"
  subgrid_vol :: int
  logical_coord :: "int list"
  logical_size :: "int list"
  iogrid :: "int list"

text \<open>The layout is chosen by the preprocessor (\<open>QDP_USE_LEXICO_LAYOUT\<close>,
  \<open>QDP_USE_CB2_LAYOUT\<close>, \<open>QDP_USE_CB3D_LAYOUT\<close>, \<open>QDP_USE_CB32_LAYOUT\<close>); the model takes
  the choice as a parameter. The dimension \<open>Nd\<close>, a constant of a header that is not part
  of the sources at hand, is a parameter too.\<close>

datatype layout_kind = LEXICO_LAYOUT | CB2_LAYOUT | CB3D_LAYOUT | CB32_LAYOUT

datatype error = QDP_error_exit string | Undefined_behaviour

definition setLattSize :: "int list \<Rightarrow> LocalLayout_t \<Rightarrow> LocalLayout_t" where
  "setLattSize nrows L = L\<lparr>nrow := nrows\<rparr>"

definition lattSize :: "LocalLayout_t \<Rightarrow> int list" where
  "lattSize L = nrow L"


definition nodeNumber :: "unit \<Rightarrow> int" where
  "nodeNumber u = 0"



subsection \<open>The I/O node grid\<close>

definition isIOGridDefined :: "LocalLayout_t \<Rightarrow> bool" where
  "isIOGridDefined L = True"

definition numIONodeGrid :: "LocalLayout_t \<Rightarrow> int" where
  "numIONodeGrid L = 1"

text \<open>\<open>for(int i=0; i < Nd; i++) _layout.iogrid[i] = 1;\<close> after \<open>resize(Nd)\<close>.\<close>

definition setIONodeGridDefaults :: "nat \<Rightarrow> LocalLayout_t \<Rightarrow> LocalLayout_t" where
  "setIONodeGridDefaults Nd L =
     L\<lparr>iogrid := fold (\<lambda>i g. g[i := 1]) [0..<Nd] (resize Nd (iogrid L))\<rparr>"

definition setIONodeGrid :: "nat \<Rightarrow> int list \<Rightarrow> LocalLayout_t \<Rightarrow> LocalLayout_t" where
  "setIONodeGrid Nd io_grid L = setIONodeGridDefaults Nd L"

definition getIONodeGrid :: "LocalLayout_t \<Rightarrow> int list" where
  "getIONodeGrid L = iogrid L"

subsection \<open>The lexicographic helpers\<close>

text \<open>
  Modelled from the spec: \<open>crtesn\<close> and \<open>local_site\<close> are declared in \<open>qdp_util.h\<close> and
  defined outside the sources at hand. The spec describes them as the mixed-radix
  positional encoding of a coordinate against the extents, the first dimension varying
  fastest, and its inverse by direct positional arithmetic. The division is that of C++;
  an extent 0 makes the decoding divide by zero. The encoding is written for a coordinate
  and an extent vector of one length; for different lengths the spec says nothing, and
  the model leaves the result undefined.
\<close>

fun crtesn :: "int \<Rightarrow> int list \<Rightarrow> int list option" where
  "crtesn ipos [] = Some []"
| "crtesn ipos (l # ls) =
     do {
       x \<leftarrow> c_mod ipos l;
       q \<leftarrow> c_div ipos l;
       coord \<leftarrow> crtesn q ls;
       Some (x # coord)
     }"

fun local_site :: "int list \<Rightarrow> int list \<Rightarrow> int option" where
  "local_site [] [] = Some 0"
| "local_site (c # cs) (l # ls) =
     do {
       order \<leftarrow> local_site cs ls;
       Some (c + l * order)
     }"
| "local_site _ _ = None"

text \<open>
  Modelled from the spec: in the build with the 3D checkerboard layout the two helpers
  run with the last ("time") dimension fastest; the layout's own comments say so
  (\<open>This now uses crtesn with the t running fastest\<close>, \<open>Use funky local site\<close>), and the
  spec calls the last dimension the fastest-varying axis of this variant. Their
  definitions are outside the sources at hand. The model is the same positional
  arithmetic with the time axis moved in front of the others:
  \<open>t + Lt * (x + Lx * (y + Ly * z))\<close>.
\<close>

definition t_first :: "'a list \<Rightarrow> 'a list" where
  "t_first xs = (if xs = [] then [] else last xs # butlast xs)"

definition crtesn_t :: "int \<Rightarrow> int list \<Rightarrow> int list option" where
  "crtesn_t ipos latt_size = map_option rotate1 (crtesn ipos (t_first latt_size))"

definition local_site_t :: "int list \<Rightarrow> int list \<Rightarrow> int option" where
  "local_site_t coord latt_size = local_site (t_first coord) (t_first latt_size)"

subsection \<open>Lexicographic layout\<close>

definition siteCoords_lexico :: "LocalLayout_t \<Rightarrow> int \<Rightarrow> int \<Rightarrow> int list option" where
  "siteCoords_lexico L node linearsite = crtesn linearsite (lattSize L)"

definition linearSiteIndex_lexico :: "LocalLayout_t \<Rightarrow> int list \<Rightarrow> int option" where
  "linearSiteIndex_lexico L coord = local_site coord (lattSize L)"

subsection \<open>2 checkerboard (red/black) layout\<close>

definition siteCoords_cb2 :: "LocalLayout_t \<Rightarrow> int \<Rightarrow> int \<Rightarrow> int list option" where
  "siteCoords_cb2 L node linearsite =
     do {
       let vol_cb = drop_bit 1 (vol L);
       n0 \<leftarrow> elem (lattSize L) 0;
       cb_nrow \<leftarrow> assign (lattSize L) 0 (drop_bit 1 n0);
       cb \<leftarrow> c_div linearsite vol_cb;
       r \<leftarrow> c_mod linearsite vol_cb;
       coord \<leftarrow> crtesn r cb_nrow;
       let cbb = fold (\<lambda>m s. s + coord ! m) [1..<length coord] cb;
       let cbb = cbb AND 1;
       c0 \<leftarrow> elem coord 0;
       assign coord 0 (2 * c0 + cbb)
     }"

definition linearSiteIndex_cb2 :: "LocalLayout_t \<Rightarrow> int list \<Rightarrow> int option" where
  "linearSiteIndex_cb2 L coord =
     do {
       let vol_cb = drop_bit 1 (vol L);
       n0 \<leftarrow> elem (lattSize L) 0;
       cb_nrow \<leftarrow> assign (lattSize L) 0 (drop_bit 1 n0);
       c0 \<leftarrow> elem coord 0;
       cb_coord \<leftarrow> assign coord 0 (drop_bit 1 c0);
       let cb = fold (\<lambda>m s. s + coord ! m) [0..<length coord] 0;
       let cb = cb AND 1;
       order \<leftarrow> local_site cb_coord cb_nrow;
       Some (order + cb * vol_cb)
     }"

subsection \<open>2 checkerboard layout in 3D, time running fastest\<close>

definition siteCoords_cb3d :: "LocalLayout_t \<Rightarrow> int \<Rightarrow> int \<Rightarrow> int list option" where
  "siteCoords_cb3d L node linearsite =
     do {
       let vol_cb = vol L sdiv 2;
       n0 \<leftarrow> elem (lattSize L) 0;
       cb_nrow \<leftarrow> assign (lattSize L) 0 (n0 sdiv 2);
       cb \<leftarrow> c_div linearsite vol_cb;
       r \<leftarrow> c_mod linearsite vol_cb;
       coord \<leftarrow> crtesn_t r cb_nrow;
       let cbb = fold (\<lambda>m s. s + coord ! m) [1..<length coord - 1] cb;
       let cbb = cbb AND 1;
       c0 \<leftarrow> elem coord 0;
       assign coord 0 (2 * c0 + cbb)
     }"

definition linearSiteIndex_cb3d :: "LocalLayout_t \<Rightarrow> int list \<Rightarrow> int option" where
  "linearSiteIndex_cb3d L coord =
     do {
       let vol_cb = vol L sdiv 2;
       n0 \<leftarrow> elem (lattSize L) 0;
       cb_nrow \<leftarrow> assign (lattSize L) 0 (n0 sdiv 2);
       c0 \<leftarrow> elem coord 0;
       cb_coord \<leftarrow> assign coord 0 (c0 sdiv 2);
       let cb = fold (\<lambda>m s. s + coord ! m) [0..<length coord - 1] 0;
       let cb = cb AND 1;
       order \<leftarrow> local_site_t cb_coord cb_nrow;
       Some (order + cb * vol_cb)
     }"

subsection \<open>32-style checkerboard layout\<close>

text \<open>\<open>cb_nrow(Nd)\<close> with \<open>cb_nrow[0] = lattSize()[0] >> 2\<close> and
  \<open>cb_nrow[i] = lattSize()[i] >> 1\<close> for \<open>1 \<le> i < Nd\<close>; the same shifts build \<open>cb_coord\<close>.\<close>

definition cb32_shrink :: "nat \<Rightarrow> int list \<Rightarrow> int list option" where
  "cb32_shrink Nd xs =
     (if 0 < Nd \<and> Nd \<le> length xs
      then Some (drop_bit 2 (xs ! 0) # map (\<lambda>i. drop_bit 1 (xs ! i)) [1..<Nd])
      else None)"

definition siteCoords_cb32 :: "nat \<Rightarrow> LocalLayout_t \<Rightarrow> int \<Rightarrow> int \<Rightarrow> int list option" where
  "siteCoords_cb32 Nd L node linearsite =
     do {
       let vol_cb = drop_bit (Nd + 1) (vol L);
       cb_nrow \<leftarrow> cb32_shrink Nd (lattSize L);
       subl \<leftarrow> c_div linearsite vol_cb;
       r \<leftarrow> c_mod linearsite vol_cb;
       coord \<leftarrow> crtesn r cb_nrow;
       let cb = fold (\<lambda>m s. s + coord ! m) [1..<Nd] 0;
       let cb = cb AND 1;
       let coord = push_bit 2 (coord ! 0) # map (\<lambda>m. push_bit 1 (coord ! m)) [1..<Nd];
       let subl = subl XOR push_bit Nd cb;
       let coord = map (\<lambda>m. coord ! m XOR drop_bit m (subl AND push_bit m 1)) [0..<Nd];
       assign coord 0 (coord ! 0 XOR drop_bit (Nd - 1) (subl AND push_bit Nd 1))
     }"

definition linearSiteIndex_cb32 :: "nat \<Rightarrow> LocalLayout_t \<Rightarrow> int list \<Rightarrow> int option" where
  "linearSiteIndex_cb32 Nd L coord =
     do {
       let vol_cb = drop_bit (Nd + 1) (vol L);
       cb_nrow \<leftarrow> cb32_shrink Nd (lattSize L);
       cb_coord \<leftarrow> cb32_shrink Nd coord;
       let subl = coord ! (Nd - 1) AND 1;
       let subl = fold (\<lambda>m s. push_bit 1 s + (coord ! m AND 1)) (rev [0..<Nd - 1]) subl;
       let cb = fold (\<lambda>m s. s + drop_bit 1 (coord ! m)) [0..<Nd] 0;
       let subl = subl + push_bit Nd (cb AND 1);
       order \<leftarrow> local_site cb_coord cb_nrow;
       Some (order + subl * vol_cb)
     }"

subsection \<open>The layout in use\<close>

definition siteCoords :: "layout_kind \<Rightarrow> nat \<Rightarrow> LocalLayout_t \<Rightarrow> int \<Rightarrow> int \<Rightarrow> int list option" where
  "siteCoords k Nd L node linearsite =
     (case k of
        LEXICO_LAYOUT \<Rightarrow> siteCoords_lexico L node linearsite
      | CB2_LAYOUT \<Rightarrow> siteCoords_cb2 L node linearsite
      | CB3D_LAYOUT \<Rightarrow> siteCoords_cb3d L node linearsite
      | CB32_LAYOUT \<Rightarrow> siteCoords_cb32 Nd L node linearsite)"

definition linearSiteIndex :: "layout_kind \<Rightarrow> nat \<Rightarrow> LocalLayout_t \<Rightarrow> int list \<Rightarrow> int option" where
  "linearSiteIndex k Nd L coord =
     (case k of
        LEXICO_LAYOUT \<Rightarrow> linearSiteIndex_lexico L coord
      | CB2_LAYOUT \<Rightarrow> linearSiteIndex_cb2 L coord
      | CB3D_LAYOUT \<Rightarrow> linearSiteIndex_cb3d L coord
      | CB32_LAYOUT \<Rightarrow> linearSiteIndex_cb32 Nd L coord)"

subsection \<open>Layout creation\<close>

text \<open>The sanity sweep of \<open>create\<close>, as the sequential loop it is without the OpenMP
  pragma: \<open>for(int i=0; i < _layout.vol; ++i)\<close>.\<close>

function sanity_check :: "layout_kind \<Rightarrow> nat \<Rightarrow> LocalLayout_t \<Rightarrow> int \<Rightarrow> error + unit" where
  "sanity_check k Nd L i =
     (if i < vol L then
        (case do { coord \<leftarrow> siteCoords k Nd L (nodeNumber ()) i; linearSiteIndex k Nd L coord } of
           None \<Rightarrow> Inl Undefined_behaviour
         | Some j \<Rightarrow>
             if i \<noteq> j
             then Inl (QDP_error_exit ''Layout::create - Layout problems, the layout functions do not work correctly with this lattice size'')
             else sanity_check k Nd L (i + 1))
      else Inr ())"
  by pat_completeness auto
termination
  by (relation "measure (\<lambda>(k, Nd, L, i). nat (vol L - i))") auto

text \<open>Of \<open>initDefaults\<close> only \<open>setIONodeGridDefaults\<close> touches the layout; the default sets
  and maps, the random number generator, the profile level and the allocator are other
  components.\<close>

definition initDefaults :: "nat \<Rightarrow> LocalLayout_t \<Rightarrow> LocalLayout_t" where
  "initDefaults Nd L = setIONodeGridDefaults Nd L"

text \<open>\<open>QDP_isInitialized()\<close> is the argument \<open>initialized\<close>. \<open>QDP_error_exit\<close> does not
  return.\<close>

definition create :: "layout_kind \<Rightarrow> nat \<Rightarrow> bool \<Rightarrow> LocalLayout_t \<Rightarrow> error + LocalLayout_t" where
  "create k Nd initialized L =
     (if \<not> initialized then Inl (QDP_error_exit ''QDP is not initialized'')
      else if length (nrow L) \<noteq> Nd
      then Inl (QDP_error_exit ''dimension of lattice size not the same as the default'')
      else
        let L = L\<lparr>vol := 1\<rparr>;
            L = fold (\<lambda>i L. L\<lparr>vol := int_mul (vol L) (nrow L ! i)\<rparr>) [0..<Nd] L;
            L = L\<lparr>subgrid_vol := vol L\<rparr>;
            L = L\<lparr>logical_coord := resize Nd (logical_coord L)\<rparr>;
            L = L\<lparr>logical_size := resize Nd (logical_size L)\<rparr>;
            L = L\<lparr>logical_coord := map (\<lambda>_. 0) (logical_coord L)\<rparr>;
            L = L\<lparr>logical_size := map (\<lambda>_. 1) (logical_size L)\<rparr>
        in case sanity_check k Nd L 0 of
             Inl e \<Rightarrow> Inl e
           | Inr _ \<Rightarrow> Inr (initDefaults Nd L))"

subsection \<open>The map object in memory\<close>

text \<open>\<open>src_map\<close> is a \<open>std::tr1::unordered_map<std::string, V>\<close>. A key is looked up by the
  string that \<open>write(bin, key)\<close> leaves in a \<open>BinaryBufferWriter\<close>; the writer is another
  component, so the model takes the serialization as the parameter \<open>ser\<close>.\<close>

record 'v MapObjectMemory =
  src_map :: "(string, 'v) fmap"
  user_data :: string

definition insert_mo ::
  "('k \<Rightarrow> string) \<Rightarrow> 'k \<Rightarrow> 'v \<Rightarrow> 'v MapObjectMemory \<Rightarrow> int \<times> 'v MapObjectMemory" where
  "insert_mo ser key val M =
     (let ret = 0; bin_key = ser key
      in case fmlookup (src_map M) bin_key of
           Some _ \<Rightarrow> (ret, M\<lparr>src_map := fmupd bin_key val (src_map M)\<rparr>)
         | None \<Rightarrow> (ret, M\<lparr>src_map := fmupd bin_key val (src_map M)\<rparr>))"

text \<open>\<open>get\<close> writes through the reference \<open>val\<close>: the model returns the return code and
  the content of \<open>val\<close> afterwards. \<open>get\<close> and \<open>exist\<close> are \<open>const\<close>, but \<open>src_map\<close> is
  declared \<open>mutable\<close>, so they return the object as well.\<close>

definition get ::
  "('k \<Rightarrow> string) \<Rightarrow> 'k \<Rightarrow> 'v \<Rightarrow> 'v MapObjectMemory \<Rightarrow> int \<times> 'v \<times> 'v MapObjectMemory" where
  "get ser key val M =
     (let ret = 0
      in case fmlookup (src_map M) (ser key) of
           None \<Rightarrow> (1, val, M)
         | Some v \<Rightarrow> (ret, v, M))"

definition erase :: "('k \<Rightarrow> string) \<Rightarrow> 'k \<Rightarrow> 'v MapObjectMemory \<Rightarrow> 'v MapObjectMemory" where
  "erase ser key M =
     (case fmlookup (src_map M) (ser key) of
        Some _ \<Rightarrow> M\<lparr>src_map := fmdrop (ser key) (src_map M)\<rparr>
      | None \<Rightarrow> M)"

definition exist ::
  "('k \<Rightarrow> string) \<Rightarrow> 'k \<Rightarrow> 'v MapObjectMemory \<Rightarrow> bool \<times> 'v MapObjectMemory" where
  "exist ser key M = (if fmlookup (src_map M) (ser key) = None then False else True, M)"

text \<open>\<open>size\<close> returns an \<open>unsigned int\<close>.\<close>

definition size_mo :: "'v MapObjectMemory \<Rightarrow> 32 word" where
  "size_mo M = of_nat (fcard (fmdom (src_map M)))"

subsection \<open>Vocabulary of the properties\<close>

text \<open>A coordinate is valid for the extents \<open>dims\<close> when it has their length and
  \<open>0 \<le> c[m] < dims[m]\<close> for every \<open>m\<close>. A lattice size is a vector of positive extents.\<close>

definition valid_coord :: "int list \<Rightarrow> int list \<Rightarrow> bool" where
  "valid_coord dims c = list_all2 (\<lambda>x d. 0 \<le> x \<and> x < d) c dims"

definition lattice_size :: "nat \<Rightarrow> int list \<Rightarrow> bool" where
  "lattice_size Nd dims = (length dims = Nd \<and> list_all (\<lambda>d. 0 < d) dims)"

text \<open>The layout state once \<open>setLattSize\<close> has stored \<open>dims\<close> and \<open>create\<close> has computed the
  volume.\<close>

definition geometry :: "int list \<Rightarrow> LocalLayout_t \<Rightarrow> bool" where
  "geometry dims L = (nrow L = dims \<and> vol L = prod_list dims)"

text \<open>The divisibility constraints of the layouts: every extent even for the two red/black
  layouts; extent 0 divisible by 4 and every other extent even for the 32-style layout;
  none for the lexicographic layout.\<close>

definition divisibility :: "layout_kind \<Rightarrow> int list \<Rightarrow> bool" where
  "divisibility k dims =
     (case k of
        LEXICO_LAYOUT \<Rightarrow> True
      | CB2_LAYOUT \<Rightarrow> list_all even dims
      | CB3D_LAYOUT \<Rightarrow> list_all even dims
      | CB32_LAYOUT \<Rightarrow> 4 dvd dims ! 0 \<and> list_all even (tl dims))"

text \<open>The sublattice id of the 32-style layout in the spec's words: the number of
  \<open>Nd + 1\<close> bits whose bit \<open>m < Nd\<close> is \<open>c[m] & 1\<close> and whose bit \<open>Nd\<close> is the parity of the
  sum of the \<open>c[m] >> 1\<close>. \<open>horner_sum of_bool 2 bs\<close> is the number with the bits \<open>bs\<close>,
  lowest first.\<close>

definition sublattice_id :: "nat \<Rightarrow> int list \<Rightarrow> int" where
  "sublattice_id Nd c =
     horner_sum of_bool 2
       (map (\<lambda>m. odd (c ! m)) [0..<Nd]
        @ [odd (sum_list (map (\<lambda>m. drop_bit 1 (c ! m)) [0..<Nd]))])"

text \<open>The shrunk coordinate and grid of the 32-style layout in the spec's words:
  component 0 shifted right by 2, every other component by 1.\<close>

definition shrunk :: "int list \<Rightarrow> int list" where
  "shrunk c = (case c of [] \<Rightarrow> [] | x # cs \<Rightarrow> x div 4 # map (\<lambda>e. e div 2) cs)"

text \<open>The layout state for the lattice size \<open>dims\<close> with the product of the extents as its
  volume.\<close>

definition layout_of :: "int list \<Rightarrow> LocalLayout_t" where
  "layout_of dims =
     \<lparr>vol = prod_list dims, nrow = dims, subgrid_vol = prod_list dims,
      logical_coord = replicate (length dims) 0, logical_size = replicate (length dims) 1,
      iogrid = replicate (length dims) 1\<rparr>"

text \<open>The layout state that a successful \<open>create\<close> leaves for the lattice size \<open>dims\<close>:
  the volume is the product of the extents as the 32-bit \<open>int\<close> holds it.\<close>

definition created_layout :: "int list \<Rightarrow> LocalLayout_t" where
  "created_layout dims =
     \<lparr>vol = int32 (prod_list dims), nrow = dims, subgrid_vol = int32 (prod_list dims),
      logical_coord = replicate (length dims) 0, logical_size = replicate (length dims) 1,
      iogrid = replicate (length dims) 1\<rparr>"

text \<open>The round trip that the sanity sweep of \<open>create\<close> checks at the index \<open>i\<close>.\<close>

definition round_trip :: "layout_kind \<Rightarrow> nat \<Rightarrow> LocalLayout_t \<Rightarrow> int \<Rightarrow> int option" where
  "round_trip k Nd L i = siteCoords k Nd L (nodeNumber ()) i \<bind> linearSiteIndex k Nd L"



text \<open>\<open>_layout\<close> before \<open>setLattSize\<close>: a namespace-scope object, its \<open>int\<close> members zero and
  its arrays empty.\<close>

definition initial_layout :: LocalLayout_t where
  "initial_layout =
     \<lparr>vol = 0, nrow = [], subgrid_vol = 0, logical_coord = [], logical_size = [], iogrid = []\<rparr>"

section \<open>Properties\<close>

subsection \<open>The lexicographic helpers invert each other\<close>

lemma c_div_pos: "0 \<le> a \<Longrightarrow> 0 < b \<Longrightarrow> c_div a b = Some (a div b)"
  by (simp add: c_div_def signed_divide_int_def sgn_if)

lemma c_mod_pos: "0 \<le> a \<Longrightarrow> 0 < b \<Longrightarrow> c_mod a b = Some (a mod b)"
  by (simp add: c_mod_def signed_modulo_int_def sgn_if)

lemma sdiv_two_nonneg: "0 \<le> (a::int) \<Longrightarrow> a sdiv 2 = a div 2"
  by (simp add: signed_divide_int_def sgn_if)

lemma div_less_of_less_mult:
  fixes i l p :: int
  assumes "0 < l" "i < l * p"
  shows "i div l < p"
proof (rule ccontr)
  assume "\<not> i div l < p"
  then have "p \<le> i div l" by simp
  then have "l * p \<le> l * (i div l)" using assms(1) by (simp add: mult_left_mono)
  also have "\<dots> \<le> i"
    using assms(1) mult_div_mod_eq [of l i] pos_mod_sign [of l i] by linarith
  finally show False using assms(2) by simp
qed

lemma valid_coord_length: "valid_coord dims c \<Longrightarrow> length c = length dims"
  by (simp add: valid_coord_def list_all2_lengthD)

lemma valid_coord_Cons:
  "valid_coord (d # dims) (x # c) \<longleftrightarrow> 0 \<le> x \<and> x < d \<and> valid_coord dims c"
  by (simp add: valid_coord_def)

lemma valid_coord_Nil: "valid_coord [] c \<longleftrightarrow> c = []"
  by (simp add: valid_coord_def)

lemma valid_coord_nth:
  "valid_coord dims c \<longleftrightarrow> length c = length dims \<and> (\<forall>m<length dims. 0 \<le> c ! m \<and> c ! m < dims ! m)"
  by (auto simp: valid_coord_def list_all2_conv_all_nth)

lemma local_site_crtesn:
  "list_all (\<lambda>l. 0 < l) ls \<Longrightarrow> 0 \<le> i \<Longrightarrow> i < prod_list ls \<Longrightarrow>
   \<exists>cs. crtesn i ls = Some cs \<and> valid_coord ls cs \<and> local_site cs ls = Some i"
proof (induction ls arbitrary: i)
  case Nil
  then show ?case by (simp add: valid_coord_def)
next
  case (Cons l ls)
  then have l: "0 < l" and pos: "list_all (\<lambda>l. 0 < l) ls" by simp_all
  have q: "0 \<le> i div l" "i div l < prod_list ls"
    using Cons.prems l by (simp_all add: pos_imp_zdiv_nonneg_iff div_less_of_less_mult)
  from Cons.IH [OF pos q] obtain cs where
    cs: "crtesn (i div l) ls = Some cs" "valid_coord ls cs" "local_site cs ls = Some (i div l)"
    by blast
  have "crtesn i (l # ls) = Some (i mod l # cs)"
    using Cons.prems l cs by (simp add: c_div_pos c_mod_pos)
  moreover have "valid_coord (l # ls) (i mod l # cs)"
    using l cs by (simp add: valid_coord_Cons)
  moreover have "local_site (i mod l # cs) (l # ls) = Some i"
    using cs by simp
  ultimately show ?case by blast
qed

lemma crtesn_local_site:
  "valid_coord ls c \<Longrightarrow>
   \<exists>r. local_site c ls = Some r \<and> 0 \<le> r \<and> r < prod_list ls \<and> crtesn r ls = Some c"
proof (induction ls arbitrary: c)
  case Nil
  then show ?case by (simp add: valid_coord_Nil)
next
  case (Cons l ls)
  then obtain x cs where c: "c = x # cs"
    by (cases c) (simp_all add: valid_coord_def)
  with Cons.prems have x: "0 \<le> x" "x < l" and v: "valid_coord ls cs"
    by (simp_all add: valid_coord_Cons)
  from Cons.IH [OF v] obtain r where
    r: "local_site cs ls = Some r" "0 \<le> r" "r < prod_list ls" "crtesn r ls = Some cs"
    by blast
  have l: "0 < l" using x by simp
  have up: "x + l * r < l * prod_list ls"
  proof -
    have "r + 1 \<le> prod_list ls" using r by simp
    then have "l * (r + 1) \<le> l * prod_list ls" using l by (simp add: mult_left_mono)
    then show ?thesis using x by (simp add: algebra_simps)
  qed
  have lo: "0 \<le> x + l * r" using x r l by simp
  have dm: "(x + l * r) div l = r" "(x + l * r) mod l = x"
    using x l by simp_all
  have "local_site c (l # ls) = Some (x + l * r)" using c r by simp
  moreover have "crtesn (x + l * r) (l # ls) = Some c"
    using c r lo l dm by (simp add: c_div_pos c_mod_pos)
  ultimately show ?case using lo up by simp
qed

subsection \<open>Normal forms of the red/black layout\<close>

lemma local_site_incr0:
  "local_site c ls = Some r \<Longrightarrow> c \<noteq> [] \<Longrightarrow> local_site (c[0 := c ! 0 + 1]) ls = Some (r + 1)"
  by (cases c; cases ls) (auto simp: bind_eq_Some_conv)

lemma fold_sum: "fold (\<lambda>m s. s + f m) ms (s0::int) = s0 + sum_list (map f ms)"
  by (induction ms arbitrary: s0) simp_all

lemma map_nth_from_1: "map ((!) (x # xs)) [1..<Suc (length xs)] = xs"
proof -
  have "[1..<Suc (length xs)] = map Suc [0..<length xs]"
    by (simp add: map_Suc_upt)
  then show ?thesis by (simp add: map_nth o_def)
qed


lemma and_one_mod: "(a::int) AND 1 = a mod 2"
  by (simp add: and_one_eq)

lemma prod_list_pos: "list_all (\<lambda>d. 0 < d) ds \<Longrightarrow> 0 < prod_list (ds::int list)"
  by (induction ds) simp_all

lemma half_bound:
  fixes x d :: int
  assumes "0 \<le> x" "x < d" "even d"
  shows "0 \<le> x div 2 \<and> x div 2 < d div 2"
  using assms by (auto elim!: evenE)

lemma cb2_vol:
  assumes "geometry (d # ds) L" "even d"
  shows "prod_list (d div 2 # ds) = vol L div 2" "vol L = 2 * (vol L div 2)"
  using assms by (auto simp: geometry_def elim!: evenE)



subsection \<open>Round trips of the red/black layout\<close>




lemma div_mod_block:
  fixes r V p :: int
  assumes "0 \<le> r" "r < V"
  shows "(r + p mod 2 * V) div V = p mod 2" "(r + p mod 2 * V) mod V = r"
  using assms by simp_all




subsection \<open>The helpers with time running fastest\<close>

lemma rotate1_t_first: "rotate1 (t_first xs) = xs"
  by (simp add: t_first_def)

lemma t_first_rotate1: "t_first (rotate1 xs) = xs"
  by (cases xs) (simp_all add: t_first_def)

lemma length_t_first: "length (t_first xs) = length xs"
  by (simp add: t_first_def)

lemma prod_list_t_first: "prod_list (t_first xs) = prod_list (xs::int list)"
proof (cases "xs = []")
  case True
  then show ?thesis by (simp add: t_first_def)
next
  case False
  then have "prod_list xs = prod_list (butlast xs @ [last xs])" by simp
  then show ?thesis using False by (simp add: t_first_def mult.commute del: append_butlast_last_id)
qed

lemma list_all_t_first: "list_all P (t_first xs) = list_all P xs"
proof (cases "xs = []")
  case True
  then show ?thesis by (simp add: t_first_def)
next
  case False
  then have "list_all P xs = list_all P (butlast xs @ [last xs])" by simp
  then show ?thesis using False by (auto simp: t_first_def simp del: append_butlast_last_id)
qed

lemma valid_coord_rotate1:
  "valid_coord ls cs \<Longrightarrow> valid_coord (rotate1 ls) (rotate1 cs)"
  by (cases ls; cases cs) (simp_all add: valid_coord_def list_all2_appendI)

lemma valid_coord_t_first:
  assumes "valid_coord ls cs"
  shows "valid_coord (t_first ls) (t_first cs)"
proof (cases "ls = []")
  case True
  then show ?thesis using assms by (simp add: valid_coord_Nil t_first_def valid_coord_def)
next
  case False
  have len: "length cs = length ls" using assms by (rule valid_coord_length)
  with False have ne: "cs \<noteq> []" by auto
  have nth: "\<And>m. m < length ls \<Longrightarrow> 0 \<le> cs ! m \<and> cs ! m < ls ! m"
    using assms by (simp add: valid_coord_nth)
  have "0 \<le> last cs \<and> last cs < last ls"
    using nth [of "length ls - 1"] False ne len by (simp add: last_conv_nth)
  moreover have "valid_coord (butlast ls) (butlast cs)"
    using nth len by (simp add: valid_coord_nth nth_butlast)
  ultimately show ?thesis using False ne by (simp add: t_first_def valid_coord_Cons)
qed

lemma local_site_crtesn_t:
  assumes "list_all (\<lambda>l. 0 < l) ls" "0 \<le> i" "i < prod_list ls"
  shows "\<exists>cs. crtesn_t i ls = Some cs \<and> valid_coord ls cs \<and> local_site_t cs ls = Some i"
proof -
  have "list_all (\<lambda>l. 0 < l) (t_first ls)" "i < prod_list (t_first ls)"
    using assms by (simp_all add: list_all_t_first prod_list_t_first)
  from local_site_crtesn [OF this(1) assms(2) this(2)] obtain cs where
    cs: "crtesn i (t_first ls) = Some cs" "valid_coord (t_first ls) cs"
        "local_site cs (t_first ls) = Some i"
    by blast
  have "crtesn_t i ls = Some (rotate1 cs)" using cs(1) by (simp add: crtesn_t_def)
  moreover have "valid_coord ls (rotate1 cs)"
    using valid_coord_rotate1 [OF cs(2)] by (simp add: rotate1_t_first)
  moreover have "local_site_t (rotate1 cs) ls = Some i"
    using cs(3) by (simp add: local_site_t_def t_first_rotate1)
  ultimately show ?thesis by blast
qed

lemma crtesn_local_site_t:
  assumes "valid_coord ls c"
  shows "\<exists>r. local_site_t c ls = Some r \<and> 0 \<le> r \<and> r < prod_list ls \<and> crtesn_t r ls = Some c"
proof -
  from crtesn_local_site [OF valid_coord_t_first [OF assms]] obtain r where
    r: "local_site (t_first c) (t_first ls) = Some r" "0 \<le> r" "r < prod_list (t_first ls)"
       "crtesn r (t_first ls) = Some (t_first c)"
    by blast
  then show ?thesis
    by (simp add: local_site_t_def crtesn_t_def prod_list_t_first rotate1_t_first)
qed

lemma local_site_t_incr:
  assumes "local_site_t c ls = Some r" "c \<noteq> []"
  shows "local_site_t (c[length c - 1 := c ! (length c - 1) + 1]) ls = Some (r + 1)"
proof -
  have "t_first (c[length c - 1 := c ! (length c - 1) + 1]) = (t_first c)[0 := t_first c ! 0 + 1]"
    using assms(2) by (simp add: t_first_def last_conv_nth butlast_list_update)
  moreover have "t_first c \<noteq> []" using assms(2) by (simp add: t_first_def)
  ultimately show ?thesis
    using local_site_incr0 [of "t_first c" "t_first ls" r] assms(1)
    by (simp add: local_site_t_def)
qed

lemma map_nth_butlast: "map ((!) xs) [0..<length xs - 1] = butlast xs"
proof -
  have "butlast xs = take (length xs - 1) (map ((!) xs) [0..<length xs])"
    by (simp add: butlast_conv_take map_nth)
  then show ?thesis by (simp add: take_map)
qed

lemma map_nth_middle: "map ((!) (x # xs)) [1..<length xs] = butlast xs"
proof -
  have "[1..<length xs] = map Suc [0..<length xs - 1]"
    by (cases xs) (simp_all add: map_Suc_upt del: upt_Suc)
  then have "map ((!) (x # xs)) [1..<length xs] = map ((!) xs) [0..<length xs - 1]"
    by (simp add: o_def)
  then show ?thesis using map_nth_butlast [of xs] by simp
qed

subsection \<open>The red/black layout in 3D\<close>

lemma valid_coord_pos: "valid_coord dims c \<Longrightarrow> list_all (\<lambda>d. 0 < d) dims"
  by (auto simp: valid_coord_def list_all_length list_all2_conv_all_nth)

lemma cb3d_linearSiteIndex_eq:
  assumes "geometry (d # ds) L" "valid_coord (d # ds) (x # cs)" "even d" "ds \<noteq> []"
  shows "\<exists>r. local_site_t (x div 2 # cs) (d div 2 # ds) = Some r \<and> 0 \<le> r
     \<and> r < vol L div 2 \<and> crtesn_t r (d div 2 # ds) = Some (x div 2 # cs)
     \<and> linearSiteIndex_cb3d L (x # cs)
         = Some (r + ((x + sum_list (butlast cs)) mod 2) * (vol L div 2))"
proof -
  have x: "0 \<le> x" "x < d" and cs: "valid_coord ds cs"
    using assms(2) by (simp_all add: valid_coord_Cons)
  have ne: "cs \<noteq> []" using valid_coord_length [OF cs] assms(4) by auto
  have "0 < vol L"
    using prod_list_pos [OF valid_coord_pos [OF assms(2)]] assms(1) by (simp add: geometry_def)
  then have sd: "vol L sdiv 2 = vol L div 2" "d sdiv 2 = d div 2" "x sdiv 2 = x div 2"
    using x by (simp_all add: sdiv_two_nonneg)
  have "valid_coord (d div 2 # ds) (x div 2 # cs)"
    using half_bound [OF x assms(3)] cs by (simp add: valid_coord_Cons)
  from crtesn_local_site_t [OF this] obtain r where
    r: "local_site_t (x div 2 # cs) (d div 2 # ds) = Some r" "0 \<le> r"
       "r < prod_list (d div 2 # ds)" "crtesn_t r (d div 2 # ds) = Some (x div 2 # cs)"
    by blast
  have "fold (\<lambda>m s. s + (x # cs) ! m) [0..<length (x # cs) - 1] 0 = x + sum_list (butlast cs)"
    unfolding fold_sum map_nth_butlast using ne by simp
  moreover have "nrow L = d # ds" using assms(1) by (simp add: geometry_def)
  ultimately have "linearSiteIndex_cb3d L (x # cs)
         = Some (r + ((x + sum_list (butlast cs)) mod 2) * (vol L div 2))"
    using r(1) sd
    by (simp add: linearSiteIndex_cb3d_def lattSize_def elem_def assign_def and_one_mod
        del: upt_Suc)
  with r show ?thesis unfolding cb2_vol(1) [OF assms(1,3)] by blast
qed

lemma cb3d_siteCoords_eq:
  assumes "geometry (d # ds) L" "list_all (\<lambda>d. 0 < d) (d # ds)" "even d"
    "0 \<le> i" "i < vol L"
  shows "\<exists>h hs. crtesn_t (i mod (vol L div 2)) (d div 2 # ds) = Some (h # hs)
     \<and> valid_coord (d div 2 # ds) (h # hs)
     \<and> local_site_t (h # hs) (d div 2 # ds) = Some (i mod (vol L div 2))
     \<and> siteCoords_cb3d L node i
         = Some ((2 * h + (i div (vol L div 2) + sum_list (butlast hs)) mod 2) # hs)"
proof -
  define V where "V = vol L div 2"
  have d: "0 < d" and ds: "list_all (\<lambda>d. 0 < d) ds" using assms(2) by simp_all
  have d2: "0 < d div 2" using d assms(3) by (auto elim!: evenE)
  have pos: "list_all (\<lambda>d. 0 < d) (d div 2 # ds)" using d2 ds by simp
  have Veq: "prod_list (d div 2 # ds) = V"
    using cb2_vol(1) [OF assms(1,3)] by (simp add: V_def)
  have V: "0 < V" using prod_list_pos [OF pos] Veq by simp
  have sd: "vol L sdiv 2 = V" "d sdiv 2 = d div 2"
    using assms(4,5) d by (simp_all add: sdiv_two_nonneg V_def)
  have "0 \<le> i mod V" "i mod V < prod_list (d div 2 # ds)" using V Veq by simp_all
  from local_site_crtesn_t [OF pos this] obtain hc where
    hc: "crtesn_t (i mod V) (d div 2 # ds) = Some hc" "valid_coord (d div 2 # ds) hc"
        "local_site_t hc (d div 2 # ds) = Some (i mod V)"
    by blast
  then obtain h hs where hhs: "hc = h # hs"
    by (cases hc) (simp_all add: valid_coord_def)
  have "fold (\<lambda>m s. s + (h # hs) ! m) [1..<length (h # hs) - 1] (i div V)
      = i div V + sum_list (butlast hs)"
    unfolding fold_sum using map_nth_middle [of h hs] by simp
  moreover have "nrow L = d # ds" using assms(1) by (simp add: geometry_def)
  ultimately have "siteCoords_cb3d L node i
      = Some ((2 * h + (i div V + sum_list (butlast hs)) mod 2) # hs)"
    using assms(4) V hc(1) hhs sd
    by (simp add: siteCoords_cb3d_def lattSize_def elem_def assign_def
        and_one_mod c_div_pos c_mod_pos del: upt_Suc)
  with hc hhs show ?thesis unfolding V_def by blast
qed



subsection \<open>The forward encoding of the 32-style layout\<close>

lemma cb32_shrink_eq:
  "length c = Nd \<Longrightarrow> 0 < Nd \<Longrightarrow> cb32_shrink Nd c = Some (shrunk c)"
proof (cases c)
  case Nil
  then show "length c = Nd \<Longrightarrow> 0 < Nd \<Longrightarrow> ?thesis" by simp
next
  case (Cons x cs)
  assume "length c = Nd" "0 < Nd"
  then have Nd: "Nd = Suc (length cs)" using Cons by simp
  have "map (\<lambda>i. drop_bit 1 ((x # cs) ! i)) [1..<Suc (length cs)]
      = map (\<lambda>e. e div 2) (map ((!) (x # cs)) [1..<Suc (length cs)])"
    by (simp add: drop_bit_eq_div del: upt_Suc)
  also have "\<dots> = map (\<lambda>e. e div 2) cs"
    by (simp only: map_nth_from_1)
  finally show ?thesis
    using Cons Nd by (simp add: cb32_shrink_def shrunk_def drop_bit_eq_div del: upt_Suc)
qed

lemma length_shrunk: "length (shrunk c) = length c"
  by (cases c) (simp_all add: shrunk_def)

lemma prod_list_halves:
  "list_all even ds \<Longrightarrow> prod_list ds = 2 ^ length ds * prod_list (map (\<lambda>e. e div 2) (ds::int list))"
  by (induction ds) (auto elim!: evenE)

lemma cb32_vol:
  assumes "4 dvd d" "list_all even ds"
  shows "prod_list (d # ds) = 2 ^ (length (d # ds) + 1) * prod_list (shrunk (d # ds))"
proof -
  obtain q where "d = 4 * q" using assms(1) by (elim dvdE)
  then show ?thesis using prod_list_halves [OF assms(2)] by (simp add: shrunk_def)
qed

lemma valid_coord_halves:
  "list_all even ds \<Longrightarrow> valid_coord ds cs \<Longrightarrow> valid_coord (map (\<lambda>e. e div 2) ds) (map (\<lambda>e. e div 2) cs)"
proof (induction ds arbitrary: cs)
  case Nil
  then show ?case by (simp add: valid_coord_Nil)
next
  case (Cons d ds)
  then obtain x cs' where "cs = x # cs'" by (cases cs) (simp_all add: valid_coord_def)
  with Cons show ?case using half_bound [of x d] by (simp add: valid_coord_Cons)
qed

lemma quarter_bound:
  fixes x d :: int
  assumes "0 \<le> x" "x < d" "4 dvd d"
  shows "0 \<le> x div 4 \<and> x div 4 < d div 4"
  using assms by (auto elim!: dvdE)

lemma valid_coord_shrunk:
  assumes "4 dvd d" "list_all even ds" "valid_coord (d # ds) c"
  shows "valid_coord (shrunk (d # ds)) (shrunk c)"
proof -
  obtain x cs where c: "c = x # cs"
    using assms(3) by (cases c) (simp_all add: valid_coord_def)
  then show ?thesis
    using assms quarter_bound [of x d] valid_coord_halves [of ds cs]
    by (simp add: shrunk_def valid_coord_Cons)
qed


lemma and_one_of_bool: "(a::int) AND 1 = of_bool (odd a)"
  by (simp add: and_one_eq mod_2_eq_odd)

lemma fold_bits:
  "fold (\<lambda>m s. push_bit 1 s + of_bool (g m)) (rev [0..<n]) (s0::int)
     = horner_sum of_bool 2 (map g [0..<n]) + 2 ^ n * s0"
proof (induction n arbitrary: s0)
  case 0
  then show ?case by simp
next
  case (Suc n)
  have "fold (\<lambda>m s. push_bit 1 s + of_bool (g m)) (rev [0..<Suc n]) s0
      = fold (\<lambda>m s. push_bit 1 s + of_bool (g m)) (rev [0..<n]) (push_bit 1 s0 + of_bool (g n))"
    by simp
  also have "\<dots> = horner_sum of_bool 2 (map g [0..<n]) + 2 ^ n * (push_bit 1 s0 + of_bool (g n))"
    by (rule Suc.IH)
  also have "\<dots> = horner_sum of_bool 2 (map g [0..<Suc n]) + 2 ^ Suc n * s0"
    by (simp add: horner_sum_append push_bit_eq_mult algebra_simps)
  finally show ?case .
qed

lemma cb32_subl_fold:
  assumes "0 < Nd"
  shows "fold (\<lambda>m s. push_bit 1 s + (c ! m AND 1)) (rev [0..<Nd - 1]) (c ! (Nd - 1) AND 1)
           + push_bit Nd (fold (\<lambda>m s. s + drop_bit 1 (c ! m)) [0..<Nd] 0 AND 1)
       = sublattice_id Nd (c::int list)"
proof -
  obtain n where Nd: "Nd = Suc n" using assms by (cases Nd) simp_all
  have "fold (\<lambda>m s. push_bit 1 s + (c ! m AND 1)) (rev [0..<n]) (c ! n AND 1)
      = horner_sum of_bool 2 (map (\<lambda>m. odd (c ! m)) [0..<n]) + 2 ^ n * of_bool (odd (c ! n))"
    unfolding and_one_of_bool by (rule fold_bits)
  also have "\<dots> = horner_sum of_bool 2 (map (\<lambda>m. odd (c ! m)) [0..<Suc n])"
    by (simp add: horner_sum_append)
  finally have low: "fold (\<lambda>m s. push_bit 1 s + (c ! m AND 1)) (rev [0..<Nd - 1]) (c ! (Nd - 1) AND 1)
      = horner_sum of_bool 2 (map (\<lambda>m. odd (c ! m)) [0..<Nd])"
    by (simp add: Nd)
  have "fold (\<lambda>m s. s + drop_bit 1 (c ! m)) [0..<Nd] 0
      = sum_list (map (\<lambda>m. drop_bit 1 (c ! m)) [0..<Nd])"
    by (simp add: fold_sum)
  then show ?thesis
    unfolding low by (simp add: sublattice_id_def horner_sum_append and_one_of_bool push_bit_eq_mult)
qed

lemma sublattice_id_range: "0 \<le> sublattice_id Nd c \<and> sublattice_id Nd c < 2 ^ (Nd + 1)"
  using horner_sum_of_bool_2_less [where ?'a = int,
      of "map (\<lambda>m. odd (c ! m)) [0..<Nd] @ [odd (sum_list (map (\<lambda>m. drop_bit 1 (c ! m)) [0..<Nd]))]"]
  by (simp add: sublattice_id_def horner_sum_nonnegative)

lemma sublattice_id_bits:
  "bit (sublattice_id Nd c) m \<longleftrightarrow>
     (if m < Nd then odd (c ! m)
      else m = Nd \<and> odd (sum_list (map (\<lambda>m. drop_bit 1 (c ! m)) [0..<Nd])))"
  by (auto simp: sublattice_id_def bit_horner_sum_bit_iff nth_append)

lemma cb32_linearSiteIndex_eq:
  assumes "geometry (d # ds) L" "valid_coord (d # ds) c" "4 dvd d" "list_all even ds"
    "Nd = length (d # ds)"
  shows "\<exists>r. local_site (shrunk c) (shrunk (d # ds)) = Some r \<and> 0 \<le> r
     \<and> r < drop_bit (Nd + 1) (vol L) \<and> crtesn r (shrunk (d # ds)) = Some (shrunk c)
     \<and> linearSiteIndex_cb32 Nd L c = Some (r + sublattice_id Nd c * drop_bit (Nd + 1) (vol L))"
proof -
  have len: "length c = Nd" using valid_coord_length [OF assms(2)] assms(5) by simp
  have Nd: "0 < Nd" using assms(5) by simp
  have V: "drop_bit (Nd + 1) (vol L) = prod_list (shrunk (d # ds))"
    using assms(1) cb32_vol [OF assms(3,4)] assms(5)
    by (simp add: geometry_def drop_bit_eq_div del: prod_list.Cons)
  from crtesn_local_site [OF valid_coord_shrunk [OF assms(3,4,2)]] obtain r where
    r: "local_site (shrunk c) (shrunk (d # ds)) = Some r" "0 \<le> r"
       "r < prod_list (shrunk (d # ds))" "crtesn r (shrunk (d # ds)) = Some (shrunk c)"
    by blast
  have "nrow L = d # ds" using assms(1) by (simp add: geometry_def)
  then have "linearSiteIndex_cb32 Nd L c
      = Some (r + sublattice_id Nd c * drop_bit (Nd + 1) (vol L))"
    using r(1) cb32_shrink_eq [OF len Nd] cb32_shrink_eq [of "d # ds" Nd] assms(5) Nd
      cb32_subl_fold [OF Nd, of c]
    by (simp add: linearSiteIndex_cb32_def lattSize_def Let_def del: upt_Suc)
  with r show ?thesis unfolding V by blast
qed

subsection \<open>The decoder of the 32-style layout\<close>











subsection \<open>Round trip of an index in the 32-style layout\<close>

lemma nth_shrunk:
  "m < length c \<Longrightarrow> shrunk c ! m = (if m = 0 then c ! 0 div 4 else c ! m div 2)"
  by (cases c; cases m) (simp_all add: shrunk_def)











subsection \<open>Round trip of a coordinate in the 32-style layout\<close>






subsection \<open>The round trips of the four layouts\<close>

lemma geometry_layout_of: "geometry dims (layout_of dims)"
  by (simp add: geometry_def layout_of_def)



lemma layout_select:
  "siteCoords LEXICO_LAYOUT Nd L = siteCoords_lexico L"
  "siteCoords CB2_LAYOUT Nd L = siteCoords_cb2 L"
  "siteCoords CB3D_LAYOUT Nd L = siteCoords_cb3d L"
  "siteCoords CB32_LAYOUT Nd L = siteCoords_cb32 Nd L"
  "linearSiteIndex LEXICO_LAYOUT Nd L = linearSiteIndex_lexico L"
  "linearSiteIndex CB2_LAYOUT Nd L = linearSiteIndex_cb2 L"
  "linearSiteIndex CB3D_LAYOUT Nd L = linearSiteIndex_cb3d L"
  "linearSiteIndex CB32_LAYOUT Nd L = linearSiteIndex_cb32 Nd L"
  by (simp_all add: fun_eq_iff siteCoords_def linearSiteIndex_def)


subsection \<open>Claim C1: the round trip of every layout\<close>



subsection \<open>Sums over index ranges\<close>

lemma local_site_sum:
  "local_site c ls = Some r \<Longrightarrow> r = (\<Sum>m<length c. c ! m * (\<Prod>j<m. ls ! j))"
proof (induction c ls arbitrary: r rule: local_site.induct)
  case 1
  then show ?case by simp
next
  case (2 c cs l ls)
  then obtain r' where r': "local_site cs ls = Some r'" "r = c + l * r'"
    by (auto simp: bind_eq_Some_conv)
  have "(\<Sum>m<length (c # cs). (c # cs) ! m * (\<Prod>j<m. (l # ls) ! j))
      = c + (\<Sum>m<length cs. cs ! m * (l * (\<Prod>j<m. ls ! j)))"
    by (simp add: sum.lessThan_Suc_shift prod.lessThan_Suc_shift
        del: sum.lessThan_Suc prod.lessThan_Suc)
  also have "\<dots> = c + l * (\<Sum>m<length cs. cs ! m * (\<Prod>j<m. ls ! j))"
    by (simp add: sum_distrib_left mult.left_commute)
  finally show ?case using "2.IH" [OF r'(1)] r'(2) by simp
qed simp_all

lemma sum_list_interval: "sum_list (map f [a..<b]) = (\<Sum>m = a..<b. (f m :: int))"
  by (simp add: interv_sum_list_conv_sum_set_nat)

lemma sum_butlast: "(\<Sum>m = 0..<length c - 1. c ! m) = sum_list (butlast (c::int list))"
proof -
  have "(\<Sum>m = 0..<length c - 1. c ! m) = sum_list (map ((!) c) [0..<length c - 1])"
    by (rule sum_list_interval [symmetric])
  then show ?thesis by (simp only: map_nth_butlast)
qed

lemma sum_middle_butlast:
  "(\<Sum>m = 1..<length hs. (h # hs) ! m) = sum_list (butlast (hs::int list))"
proof -
  have "(\<Sum>m = 1..<length hs. (h # hs) ! m) = sum_list (map ((!) (h # hs)) [1..<length hs])"
    by (rule sum_list_interval [symmetric])
  then show ?thesis by (simp only: map_nth_middle)
qed

subsection \<open>Claim C3: the forward encoding of the 32-style layout\<close>

text \<open>
  Claim C3. For a lattice size with extent 0 divisible by 4 and every other extent even,
  and a coordinate \<open>c\<close> valid for it, \<open>linearSiteIndex(c) = lexIndex + subl * vol_cb\<close> in the
  32-style layout, where \<open>vol_cb = vol / 2^(Nd+1)\<close>; \<open>lexIndex\<close> is the lexicographic index,
  dimension 0 fastest, of the shrunk coordinate (\<open>c[0] >> 2\<close>, and \<open>c[m] >> 1\<close> for
  \<open>m \<ge> 1\<close>) in the shrunk grid (\<open>dims[0] / 4\<close>, \<open>dims[m] / 2\<close>); and \<open>subl\<close> is the number
  of \<open>Nd + 1\<close> bits whose bit \<open>m < Nd\<close> is \<open>c[m] & 1\<close> and whose bit \<open>Nd\<close> is the parity of
  the sum of the \<open>c[m] >> 1\<close>.
\<close>

theorem cb32_forward_encoding:
  assumes "lattice_size Nd dims" "divisibility CB32_LAYOUT dims" "geometry dims L" "0 < Nd"
    "valid_coord dims c"
  shows "\<exists>lexIndex.
      linearSiteIndex CB32_LAYOUT Nd L c
        = Some (lexIndex + sublattice_id Nd c * (vol L div 2 ^ (Nd + 1)))
    \<and> local_site (shrunk c) (shrunk dims) = Some lexIndex
    \<and> lexIndex = (\<Sum>m<Nd. shrunk c ! m * (\<Prod>j<m. shrunk dims ! j))
    \<and> (\<forall>m<Nd. shrunk c ! m = drop_bit (if m = 0 then 2 else 1) (c ! m))
    \<and> (\<forall>m<Nd. shrunk dims ! m = (if m = 0 then dims ! 0 div 4 else dims ! m div 2))
    \<and> (\<forall>m<Nd. bit (sublattice_id Nd c) m \<longleftrightarrow> c ! m AND 1 = 1)
    \<and> (bit (sublattice_id Nd c) Nd \<longleftrightarrow> (\<Sum>m = 0..<Nd. drop_bit 1 (c ! m)) AND 1 = 1)
    \<and> 0 \<le> sublattice_id Nd c \<and> sublattice_id Nd c < 2 ^ (Nd + 1)"
proof -
  have len: "length dims = Nd" using assms(1) by (simp add: lattice_size_def)
  then obtain d ds where dims: "dims = d # ds" using assms(4) by (cases dims) auto
  have dv: "4 dvd d" "list_all even ds" using assms(2) by (simp_all add: divisibility_def dims)
  have Nd: "Nd = length (d # ds)" using len dims by simp
  have lc: "length c = Nd" using valid_coord_length [OF assms(5)] len by simp
  from cb32_linearSiteIndex_eq [OF assms(3) [unfolded dims] assms(5) [unfolded dims] dv Nd]
  obtain r where
    r: "local_site (shrunk c) (shrunk dims) = Some r"
       "linearSiteIndex_cb32 Nd L c = Some (r + sublattice_id Nd c * drop_bit (Nd + 1) (vol L))"
    unfolding dims by blast
  have 1: "linearSiteIndex CB32_LAYOUT Nd L c
      = Some (r + sublattice_id Nd c * (vol L div 2 ^ (Nd + 1)))"
    using r(2) by (simp add: layout_select drop_bit_eq_div)
  have 2: "r = (\<Sum>m<Nd. shrunk c ! m * (\<Prod>j<m. shrunk dims ! j))"
    using local_site_sum [OF r(1)] lc by (simp add: length_shrunk)
  have 3: "\<forall>m<Nd. shrunk c ! m = drop_bit (if m = 0 then 2 else 1) (c ! m)"
    using lc by (simp add: nth_shrunk drop_bit_eq_div)
  have 4: "\<forall>m<Nd. shrunk dims ! m = (if m = 0 then dims ! 0 div 4 else dims ! m div 2)"
    using len by (simp add: nth_shrunk)
  have 5: "\<forall>m<Nd. bit (sublattice_id Nd c) m \<longleftrightarrow> c ! m AND 1 = 1"
    by (simp add: sublattice_id_bits and_one_eq odd_iff_mod_2_eq_one)
  have 6: "bit (sublattice_id Nd c) Nd \<longleftrightarrow> (\<Sum>m = 0..<Nd. drop_bit 1 (c ! m)) AND 1 = 1"
    unfolding sublattice_id_bits sum_list_interval by (simp add: and_one_eq odd_iff_mod_2_eq_one)
  show ?thesis using r(1) 1 2 3 4 5 6 sublattice_id_range [of Nd c] by blast
qed

theorem cb32_forward_encoding_witness:
  "lattice_size 2 [4, 2] \<and> divisibility CB32_LAYOUT [4, 2] \<and> geometry [4, 2] (layout_of [4, 2])
   \<and> (0::nat) < 2 \<and> valid_coord [4, 2] [3, 1]
   \<and> (\<exists>lexIndex. linearSiteIndex CB32_LAYOUT 2 (layout_of [4, 2]) [3, 1]
          = Some (lexIndex + sublattice_id 2 [3, 1] * (vol (layout_of [4, 2]) div 2 ^ (2 + 1)))
        \<and> local_site (shrunk [3, 1]) (shrunk [4, 2]) = Some lexIndex)
   \<and> linearSiteIndex CB32_LAYOUT 2 (layout_of [4, 2]) [3, 1] = Some 7
   \<and> sublattice_id 2 [3, 1] = 7 \<and> local_site (shrunk [3, 1]) (shrunk [4, 2]) = Some 0"
proof -
  have h: "lattice_size 2 [4, 2]" "divisibility CB32_LAYOUT [4, 2]"
    "geometry [4, 2] (layout_of [4, 2])" "(0::nat) < 2" "valid_coord [4, 2] [3, 1]"
    by code_simp+
  have e: "linearSiteIndex CB32_LAYOUT 2 (layout_of [4, 2]) [3, 1] = Some 7"
    "sublattice_id 2 [3, 1] = 7" "local_site (shrunk [3, 1]) (shrunk [4, 2]) = Some 0"
    by code_simp+
  from cb32_forward_encoding [OF h] h e show ?thesis by blast
qed

subsection \<open>Claim C4: time runs fastest in the 3D checkerboard layout\<close>

text \<open>
  Claim C4. In the 3D checkerboard layout, for a lattice size of \<open>Nd \<ge> 2\<close> even extents and
  a valid coordinate \<open>c\<close>: the colour block of \<open>linearSiteIndex(c)\<close> is the parity of the
  components \<open>0 .. Nd-2\<close>, the last component left out; and when \<open>c[Nd-1] + 1 < dims[Nd-1]\<close>,
  the coordinate with the last component incremented has the index
  \<open>linearSiteIndex(c) + 1\<close>. In \<open>siteCoords\<close> the lowest bit of component 0 is the parity of
  the half flag \<open>linearsite / vol_cb\<close> plus the components \<open>1 .. Nd-2\<close>. The helpers are the
  ones modelled from the spec with time running fastest.
\<close>

theorem cb3d_time_fastest:
  "(lattice_size Nd dims \<and> divisibility CB3D_LAYOUT dims \<and> geometry dims L \<and> 2 \<le> Nd
      \<and> valid_coord dims c \<longrightarrow>
      (\<exists>r. linearSiteIndex CB3D_LAYOUT Nd L c = Some r
         \<and> r div (vol L div 2) = (\<Sum>m = 0..<Nd - 1. c ! m) mod 2
         \<and> (c ! (Nd - 1) + 1 < dims ! (Nd - 1) \<longrightarrow>
              linearSiteIndex CB3D_LAYOUT Nd L (c[Nd - 1 := c ! (Nd - 1) + 1]) = Some (r + 1))))
   \<and> (lattice_size Nd dims \<and> divisibility CB3D_LAYOUT dims \<and> geometry dims L \<and> 2 \<le> Nd
      \<and> 0 \<le> i \<and> i < vol L \<longrightarrow>
      (\<exists>x. siteCoords CB3D_LAYOUT Nd L node i = Some x
         \<and> x ! 0 mod 2 = (i div (vol L div 2) + (\<Sum>m = 1..<Nd - 1. x ! m)) mod 2))"
proof (intro conjI impI)
  assume a: "lattice_size Nd dims \<and> divisibility CB3D_LAYOUT dims \<and> geometry dims L \<and> 2 \<le> Nd
      \<and> valid_coord dims c"
  then have len: "length dims = Nd" by (simp add: lattice_size_def)
  with a obtain d ds where dims: "dims = d # ds" and ne: "ds \<noteq> []"
    by (cases dims) (auto simp: Suc_le_eq)
  from a obtain x cs where c: "c = x # cs"
    by (cases c) (auto simp: dims valid_coord_def)
  have lc: "length c = Nd" using a valid_coord_length [of dims c] len by simp
  have cne: "cs \<noteq> []" using lc len dims ne c by auto
  have ev: "even d" using a by (simp add: divisibility_def dims)
  have g: "geometry (d # ds) L" and v: "valid_coord (d # ds) (x # cs)"
    using a by (simp_all add: dims c)
  define V where "V = vol L div 2"
  define p where "p = (x + sum_list (butlast cs)) mod 2"
  from cb3d_linearSiteIndex_eq [OF g v ev ne] obtain r where
    r: "local_site_t (x div 2 # cs) (d div 2 # ds) = Some r" "0 \<le> r" "r < V"
       "linearSiteIndex_cb3d L (x # cs) = Some (r + p * V)"
    unfolding V_def p_def by blast
  have colour: "(r + p * V) div V = (\<Sum>m = 0..<Nd - 1. c ! m) mod 2"
  proof -
    have n1: "Nd - 1 = length c - 1" using lc by simp
    have "(\<Sum>m = 0..<Nd - 1. c ! m) = sum_list (butlast c)"
      unfolding n1 by (rule sum_butlast)
    then have "(\<Sum>m = 0..<Nd - 1. c ! m) = x + sum_list (butlast cs)"
      using cne by (simp add: c)
    then show ?thesis using div_mod_block(1) [OF r(2,3), of "x + sum_list (butlast cs)"]
      by (simp add: p_def)
  qed
  have incr: "linearSiteIndex_cb3d L (c[Nd - 1 := c ! (Nd - 1) + 1]) = Some (r + p * V + 1)"
    if lt: "c ! (Nd - 1) + 1 < dims ! (Nd - 1)"
  proof -
    define cs' where "cs' = cs[length cs - 1 := cs ! (length cs - 1) + 1]"
    obtain j where j: "length cs = Suc j" using cne by (cases cs) simp_all
    then have n1: "Nd - 1 = Suc j" using lc by (simp add: c)
    have c': "c[Nd - 1 := c ! (Nd - 1) + 1] = x # cs'"
      unfolding n1 by (simp add: c cs'_def j)
    have "valid_coord dims (c[Nd - 1 := c ! (Nd - 1) + 1])"
      using a lt len by (auto simp: valid_coord_nth nth_list_update)
    then have v': "valid_coord (d # ds) (x # cs')" unfolding dims c' .
    from cb3d_linearSiteIndex_eq [OF g v' ev ne] obtain r' where
      r': "local_site_t (x div 2 # cs') (d div 2 # ds) = Some r'"
          "linearSiteIndex_cb3d L (x # cs')
             = Some (r' + ((x + sum_list (butlast cs')) mod 2) * V)"
      unfolding V_def by blast
    have "(x div 2 # cs)[length (x div 2 # cs) - 1 := (x div 2 # cs) ! (length (x div 2 # cs) - 1) + 1]
        = x div 2 # cs'"
      by (simp add: cs'_def j)
    with local_site_t_incr [OF r(1)] have "local_site_t (x div 2 # cs') (d div 2 # ds) = Some (r + 1)"
      by simp
    then have "r' = r + 1" using r'(1) by simp
    moreover have "butlast cs' = butlast cs"
      by (simp add: cs'_def butlast_list_update)
    ultimately show ?thesis unfolding c' using r'(2) by (simp add: p_def)
  qed
  show "\<exists>r. linearSiteIndex CB3D_LAYOUT Nd L c = Some r
         \<and> r div (vol L div 2) = (\<Sum>m = 0..<Nd - 1. c ! m) mod 2
         \<and> (c ! (Nd - 1) + 1 < dims ! (Nd - 1) \<longrightarrow>
              linearSiteIndex CB3D_LAYOUT Nd L (c[Nd - 1 := c ! (Nd - 1) + 1]) = Some (r + 1))"
    using r(4) colour incr unfolding V_def [symmetric] by (simp add: layout_select c)
next
  assume a: "lattice_size Nd dims \<and> divisibility CB3D_LAYOUT dims \<and> geometry dims L \<and> 2 \<le> Nd
      \<and> 0 \<le> i \<and> i < vol L"
  then have len: "length dims = Nd" and pos: "list_all (\<lambda>d. 0 < d) dims"
    by (simp_all add: lattice_size_def)
  with a obtain d ds where dims: "dims = d # ds"
    by (cases dims) auto
  have ev: "even d" using a by (simp add: divisibility_def dims)
  have g: "geometry (d # ds) L" using a by (simp add: dims)
  define V where "V = vol L div 2"
  from cb3d_siteCoords_eq [OF g pos [unfolded dims] ev, of i node] a obtain h hs where
    h: "valid_coord (d div 2 # ds) (h # hs)"
       "siteCoords_cb3d L node i = Some ((2 * h + (i div V + sum_list (butlast hs)) mod 2) # hs)"
    unfolding V_def by blast
  have lh: "Nd - 1 = length hs" using valid_coord_length [OF h(1)] len dims by simp
  have "(\<Sum>m = 1..<Nd - 1. ((2 * h + (i div V + sum_list (butlast hs)) mod 2) # hs) ! m)
      = sum_list (butlast hs)"
    unfolding lh by (rule sum_middle_butlast)
  then show "\<exists>x. siteCoords CB3D_LAYOUT Nd L node i = Some x
         \<and> x ! 0 mod 2 = (i div (vol L div 2) + (\<Sum>m = 1..<Nd - 1. x ! m)) mod 2"
    using h(2) unfolding V_def [symmetric] by (simp add: layout_select)
qed

theorem cb3d_time_fastest_witness:
  "lattice_size 3 [2, 2, 4] \<and> divisibility CB3D_LAYOUT [2, 2, 4]
   \<and> geometry [2, 2, 4] (layout_of [2, 2, 4]) \<and> (2::nat) \<le> 3 \<and> valid_coord [2, 2, 4] [1, 0, 2]
   \<and> [1, 0, 2] ! (3 - 1) + 1 < [2, 2, 4 :: int] ! (3 - 1)
   \<and> (0::int) \<le> 13 \<and> 13 < vol (layout_of [2, 2, 4])
   \<and> linearSiteIndex CB3D_LAYOUT 3 (layout_of [2, 2, 4]) [1, 0, 2] = Some 10
   \<and> linearSiteIndex CB3D_LAYOUT 3 (layout_of [2, 2, 4])
        ([1, 0, 2][3 - 1 := [1, 0, 2] ! (3 - 1) + 1]) = Some (10 + 1)
   \<and> (\<exists>x. siteCoords CB3D_LAYOUT 3 (layout_of [2, 2, 4]) 0 13 = Some x
         \<and> x ! 0 mod 2 = (13 div (vol (layout_of [2, 2, 4]) div 2) + (\<Sum>m = 1..<3 - 1. x ! m)) mod 2)"
proof -
  have h: "lattice_size 3 [2, 2, 4] \<and> divisibility CB3D_LAYOUT [2, 2, 4]
     \<and> geometry [2, 2, 4] (layout_of [2, 2, 4]) \<and> (2::nat) \<le> 3 \<and> valid_coord [2, 2, 4] [1, 0, 2]"
    "[1, 0, 2] ! (3 - 1) + 1 < [2, 2, 4 :: int] ! (3 - 1)"
    "(0::int) \<le> 13 \<and> 13 < vol (layout_of [2, 2, 4])"
    by code_simp+
  have e: "linearSiteIndex CB3D_LAYOUT 3 (layout_of [2, 2, 4]) [1, 0, 2] = Some 10"
    by code_simp
  from cb3d_time_fastest [of 3 "[2, 2, 4]" "layout_of [2, 2, 4]" "[1, 0, 2]" 13 0] h e
  show ?thesis by auto
qed

subsection \<open>Claim C5: the colour blocks of the red/black layout\<close>



subsection \<open>Claim C6: the lexicographic ordering law\<close>

text \<open>
  Claim C6. In the lexicographic layout, for a valid coordinate \<open>c\<close> with
  \<open>c[0] + 1 < dims[0]\<close>, the coordinate with component 0 incremented has the index
  \<open>linearSiteIndex(c) + 1\<close>. For \<open>dims = [2,3]\<close>, \<open>linearSiteIndex((1,2)) = 5\<close> and
  \<open>siteCoords(0, 5) = (1,2)\<close>. The layout is the pair of helpers modelled from the spec.
\<close>

theorem lexicographic_order:
  "(geometry dims L \<and> valid_coord dims c \<and> 0 < Nd \<and> length dims = Nd
      \<and> c ! 0 + 1 < dims ! 0 \<longrightarrow>
      (\<exists>r. linearSiteIndex LEXICO_LAYOUT Nd L c = Some r
         \<and> linearSiteIndex LEXICO_LAYOUT Nd L (c[0 := c ! 0 + 1]) = Some (r + 1)))
   \<and> linearSiteIndex LEXICO_LAYOUT 2 (layout_of [2, 3]) [1, 2] = Some 5
   \<and> siteCoords LEXICO_LAYOUT 2 (layout_of [2, 3]) 0 5 = Some [1, 2]"
proof (intro conjI impI)
  assume a: "geometry dims L \<and> valid_coord dims c \<and> 0 < Nd \<and> length dims = Nd
      \<and> c ! 0 + 1 < dims ! 0"
  then have g: "nrow L = dims" by (simp add: geometry_def)
  from a crtesn_local_site [of dims c] obtain r where r: "local_site c dims = Some r"
    by blast
  have "c \<noteq> []" using a valid_coord_length [of dims c] by auto
  from local_site_incr0 [OF r this] r
  show "\<exists>r. linearSiteIndex LEXICO_LAYOUT Nd L c = Some r
         \<and> linearSiteIndex LEXICO_LAYOUT Nd L (c[0 := c ! 0 + 1]) = Some (r + 1)"
    by (simp add: layout_select linearSiteIndex_lexico_def lattSize_def g)
next
  show "linearSiteIndex LEXICO_LAYOUT 2 (layout_of [2, 3]) [1, 2] = Some 5"
    by code_simp
next
  show "siteCoords LEXICO_LAYOUT 2 (layout_of [2, 3]) 0 5 = Some [1, 2]"
    by code_simp
qed

theorem lexicographic_order_witness:
  "geometry [2, 3] (layout_of [2, 3]) \<and> valid_coord [2, 3] [0, 2] \<and> (0::nat) < 2
   \<and> length [2, 3 :: int] = 2 \<and> [0, 2] ! 0 + 1 < [2, 3 :: int] ! 0
   \<and> linearSiteIndex LEXICO_LAYOUT 2 (layout_of [2, 3]) [0, 2] = Some 4
   \<and> linearSiteIndex LEXICO_LAYOUT 2 (layout_of [2, 3]) ([0, 2][0 := [0, 2] ! 0 + 1]) = Some (4 + 1)"
proof -
  have h: "geometry [2, 3] (layout_of [2, 3]) \<and> valid_coord [2, 3] [0, 2] \<and> (0::nat) < 2
     \<and> length [2, 3 :: int] = 2 \<and> [0, 2] ! 0 + 1 < [2, 3 :: int] ! 0"
    by code_simp
  have e: "linearSiteIndex LEXICO_LAYOUT 2 (layout_of [2, 3]) [0, 2] = Some 4"
    by code_simp
  from lexicographic_order [of "[2, 3]" "layout_of [2, 3]" "[0, 2]" 2] h e
  show ?thesis by auto
qed

subsection \<open>The I/O node grid\<close>

lemma fill_ones_aux:
  "n \<le> length g \<Longrightarrow> fold (\<lambda>i g. g[i := (1::int)]) [0..<n] g = replicate n 1 @ drop n g"
proof (induction n)
  case 0
  then show ?case by simp
next
  case (Suc n)
  then have "fold (\<lambda>i g. g[i := (1::int)]) [0..<Suc n] g = (replicate n 1 @ drop n g)[n := 1]"
    by simp
  also have "\<dots> = replicate n 1 @ (drop n g)[0 := 1]"
    by (simp add: list_update_append)
  also have "(drop n g)[0 := 1] = 1 # drop (Suc n) g"
    using Suc.prems by (metis Cons_nth_drop_Suc Suc_le_lessD list_update_code(2))
  finally show ?case
    by (simp add: replicate_append_same)
qed

lemma iogrid_setIONodeGridDefaults:
  "iogrid (setIONodeGridDefaults Nd L) = replicate Nd 1"
  by (simp add: setIONodeGridDefaults_def resize_def fill_ones_aux)

text \<open>
  Claim C8. Whatever grid \<open>g\<close> the caller passes to \<open>setIONodeGrid\<close>, the I/O grid that
  \<open>getIONodeGrid\<close> returns afterwards is the vector of \<open>Nd\<close> ones; \<open>isIOGridDefined\<close> is
  always true and \<open>numIONodeGrid\<close> is always 1.
\<close>

theorem io_grid_forced_to_ones:
  "getIONodeGrid (setIONodeGrid Nd g L) = replicate Nd 1
   \<and> length (getIONodeGrid (setIONodeGrid Nd g L)) = Nd
   \<and> isIOGridDefined (setIONodeGrid Nd g L) = True \<and> isIOGridDefined L = True
   \<and> numIONodeGrid (setIONodeGrid Nd g L) = 1 \<and> numIONodeGrid L = 1"
  by (simp add: getIONodeGrid_def setIONodeGrid_def iogrid_setIONodeGridDefaults
      isIOGridDefined_def numIONodeGrid_def)

subsection \<open>The sanity sweep\<close>

lemma codec_cong:
  assumes "vol L = vol L'" "nrow L = nrow L'"
  shows "siteCoords k Nd L = siteCoords k Nd L'" "linearSiteIndex k Nd L = linearSiteIndex k Nd L'"
  using assms
  by (auto simp: fun_eq_iff siteCoords_def linearSiteIndex_def siteCoords_lexico_def
      linearSiteIndex_lexico_def siteCoords_cb2_def linearSiteIndex_cb2_def siteCoords_cb3d_def
      linearSiteIndex_cb3d_def siteCoords_cb32_def linearSiteIndex_cb32_def lattSize_def
      split: layout_kind.splits)

lemma round_trip_cong:
  "vol L = vol L' \<Longrightarrow> nrow L = nrow L' \<Longrightarrow> round_trip k Nd L = round_trip k Nd L'"
  by (simp add: fun_eq_iff round_trip_def codec_cong [of L L'])

lemma sanity_check_unfold:
  "sanity_check k Nd L i =
     (if i < vol L then
        (case round_trip k Nd L i of
           None \<Rightarrow> Inl Undefined_behaviour
         | Some j \<Rightarrow>
             if i \<noteq> j
             then Inl (QDP_error_exit ''Layout::create - Layout problems, the layout functions do not work correctly with this lattice size'')
             else sanity_check k Nd L (i + 1))
      else Inr ())"
  by (subst sanity_check.simps) (simp add: round_trip_def)

lemma sanity_check_Inr_iff:
  "sanity_check k Nd L i = Inr u \<longleftrightarrow> (\<forall>j. i \<le> j \<and> j < vol L \<longrightarrow> round_trip k Nd L j = Some j)"
proof (induction k Nd L i rule: sanity_check.induct)
  case (1 k Nd L i)
  show ?case
  proof (cases "i < vol L")
    case False
    then show ?thesis by (subst sanity_check_unfold) auto
  next
    case True
    show ?thesis
    proof (cases "round_trip k Nd L i")
      case None
      then show ?thesis using True by (subst sanity_check_unfold) auto
    next
      case (Some j)
      show ?thesis
      proof (cases "i = j")
        case False
        then show ?thesis using True Some by (subst sanity_check_unfold) auto
      next
        case eq: True
        have IH: "sanity_check k Nd L (i + 1) = Inr u
            \<longleftrightarrow> (\<forall>j. i + 1 \<le> j \<and> j < vol L \<longrightarrow> round_trip k Nd L j = Some j)"
          using "1.IH" [of j] True Some eq by (simp add: round_trip_def)
        have "(\<forall>j. i \<le> j \<and> j < vol L \<longrightarrow> round_trip k Nd L j = Some j)
            \<longleftrightarrow> (\<forall>j. i + 1 \<le> j \<and> j < vol L \<longrightarrow> round_trip k Nd L j = Some j)"
        proof
          assume "\<forall>j. i \<le> j \<and> j < vol L \<longrightarrow> round_trip k Nd L j = Some j"
          then show "\<forall>j. i + 1 \<le> j \<and> j < vol L \<longrightarrow> round_trip k Nd L j = Some j" by simp
        next
          assume a: "\<forall>j. i + 1 \<le> j \<and> j < vol L \<longrightarrow> round_trip k Nd L j = Some j"
          show "\<forall>j. i \<le> j \<and> j < vol L \<longrightarrow> round_trip k Nd L j = Some j"
          proof (intro allI impI)
            fix j' assume "i \<le> j' \<and> j' < vol L"
            then show "round_trip k Nd L j' = Some j'"
              using a Some eq by (cases "j' = i") simp_all
          qed
        qed
        then show ?thesis using True Some eq IH by (subst sanity_check_unfold) simp
      qed
    qed
  qed
qed

lemma sanity_check_fatal:
  assumes "\<forall>j. i \<le> j \<and> j < vol L \<longrightarrow> round_trip k Nd L j \<noteq> None"
    "\<exists>j. i \<le> j \<and> j < vol L \<and> round_trip k Nd L j \<noteq> Some j"
  shows "sanity_check k Nd L i = Inl (QDP_error_exit ''Layout::create - Layout problems, the layout functions do not work correctly with this lattice size'')"
  using assms
proof (induction k Nd L i rule: sanity_check.induct)
  case (1 k Nd L i)
  from "1.prems"(2) have lt: "i < vol L" by auto
  with "1.prems"(1) obtain j where j: "round_trip k Nd L i = Some j" by auto
  show ?case
  proof (cases "i = j")
    case False
    then show ?thesis using lt j by (subst sanity_check_unfold) simp
  next
    case True
    have "\<forall>j. i + 1 \<le> j \<and> j < vol L \<longrightarrow> round_trip k Nd L j \<noteq> None"
      using "1.prems"(1) by simp
    moreover have "\<exists>j. i + 1 \<le> j \<and> j < vol L \<and> round_trip k Nd L j \<noteq> Some j"
    proof -
      from "1.prems"(2) obtain j' where j': "i \<le> j'" "j' < vol L" "round_trip k Nd L j' \<noteq> Some j'"
        by blast
      then have "j' \<noteq> i" using j True by auto
      then show ?thesis using j' by (intro exI [of _ j']) simp
    qed
    ultimately have "sanity_check k Nd L (i + 1) = Inl (QDP_error_exit ''Layout::create - Layout problems, the layout functions do not work correctly with this lattice size'')"
      using "1.IH" [of j] lt j True by (simp add: round_trip_def)
    then show ?thesis using lt j True by (subst sanity_check_unfold) simp
  qed
qed

lemma sanity_check_cong:
  assumes "vol L = vol L'" "nrow L = nrow L'"
  shows "sanity_check k Nd L i = sanity_check k Nd L' i"
  using assms
proof (induction k Nd L i rule: sanity_check.induct)
  case (1 k Nd L i)
  have rt: "round_trip k Nd L = round_trip k Nd L'" using "1.prems" by (rule round_trip_cong)
  show ?case
  proof (cases "i < vol L \<and> round_trip k Nd L i = Some i")
    case True
    then have "sanity_check k Nd L (i + 1) = sanity_check k Nd L' (i + 1)"
      using "1.IH" [of i] "1.prems" by (simp add: round_trip_def)
    then show ?thesis
      using True rt "1.prems"(1)
      by (subst sanity_check_unfold [of k Nd L i], subst sanity_check_unfold [of k Nd L' i]) simp
  next
    case False
    then show ?thesis
      using rt "1.prems"(1)
      by (subst sanity_check_unfold [of k Nd L i], subst sanity_check_unfold [of k Nd L' i])
        (auto split: option.splits)
  qed
qed

lemma int32_mult_left: "int32 (int32 a * b) = int32 (a * b)"
  using signed_take_bit_mult [of 31 "signed_take_bit 31 a" b] signed_take_bit_mult [of 31 a b]
  by (simp add: int32_def)

lemma int32_in_range: "- (2 ^ 31) \<le> x \<Longrightarrow> x < 2 ^ 31 \<Longrightarrow> int32 x = x"
  by (simp add: int32_def signed_take_bit_int_eq_self)

lemma vol_fold:
  "n \<le> length (nrow L0) \<Longrightarrow> vol L0 = 1 \<Longrightarrow>
   fold (\<lambda>i L. L\<lparr>vol := int_mul (vol L) (nrow L ! i)\<rparr>) [0..<n] L0
     = L0\<lparr>vol := int32 (prod_list (take n (nrow L0)))\<rparr>"
proof (induction n)
  case 0
  then show ?case by (simp add: int32_in_range)
next
  case (Suc n)
  then show ?case by (simp add: take_Suc_conv_app_nth int_mul_def int32_mult_left)
qed

lemma create_unfold:
  assumes "length (nrow L) = Nd"
  shows "create k Nd True L =
     (case sanity_check k Nd (created_layout (nrow L)) 0 of
        Inl e \<Rightarrow> Inl e
      | Inr _ \<Rightarrow> Inr (created_layout (nrow L)))"
proof -
  define G where "G = L\<lparr>vol := int32 (prod_list (nrow L)),
    subgrid_vol := int32 (prod_list (nrow L)),
    logical_coord := replicate Nd 0, logical_size := replicate Nd 1\<rparr>"
  have f: "fold (\<lambda>i L. L\<lparr>vol := int_mul (vol L) (nrow L ! i)\<rparr>) [0..<Nd] (L\<lparr>vol := 1\<rparr>)
      = L\<lparr>vol := int32 (prod_list (nrow L))\<rparr>"
    using vol_fold [of Nd "L\<lparr>vol := 1\<rparr>"] assms by simp
  have c: "create k Nd True L =
     (case sanity_check k Nd G 0 of Inl e \<Rightarrow> Inl e | Inr _ \<Rightarrow> Inr (initDefaults Nd G))"
    using assms unfolding create_def Let_def f
    by (simp add: G_def resize_def del: sanity_check.simps split: sum.split)
  have i: "initDefaults Nd G = created_layout (nrow L)"
    using assms
    by (simp add: initDefaults_def setIONodeGridDefaults_def resize_def fill_ones_aux G_def
        created_layout_def)
  have s: "sanity_check k Nd G 0 = sanity_check k Nd (created_layout (nrow L)) 0"
    by (rule sanity_check_cong) (simp_all add: G_def created_layout_def)
  show ?thesis unfolding c i s ..
qed

subsection \<open>Claims C2 and C7: layout creation\<close>

lemma create_not_initialized:
  "create k Nd False L = Inl (QDP_error_exit ''QDP is not initialized'')"
  by (simp add: create_def)

lemma create_wrong_dimension:
  "length (nrow L) \<noteq> Nd \<Longrightarrow>
   create k Nd True L = Inl (QDP_error_exit ''dimension of lattice size not the same as the default'')"
  by (simp add: create_def)

lemma vol_created_layout: "vol (created_layout dims) = int32 (prod_list dims)"
  by (simp add: created_layout_def)

lemma create_Inr_iff:
  assumes "length (nrow L) = Nd"
  shows "create k Nd True L = Inr L' \<longleftrightarrow>
     L' = created_layout (nrow L)
     \<and> (\<forall>i. 0 \<le> i \<and> i < vol (created_layout (nrow L))
          \<longrightarrow> round_trip k Nd (created_layout (nrow L)) i = Some i)"
proof (cases "sanity_check k Nd (created_layout (nrow L)) 0")
  case (Inl e)
  then have "\<not> (\<forall>i. 0 \<le> i \<and> i < vol (created_layout (nrow L))
      \<longrightarrow> round_trip k Nd (created_layout (nrow L)) i = Some i)"
    using sanity_check_Inr_iff [of k Nd "created_layout (nrow L)" 0 "()"] by simp
  then show ?thesis using Inl by (simp add: create_unfold [OF assms])
next
  case (Inr u)
  then have "\<forall>i. 0 \<le> i \<and> i < vol (created_layout (nrow L))
      \<longrightarrow> round_trip k Nd (created_layout (nrow L)) i = Some i"
    using sanity_check_Inr_iff [of k Nd "created_layout (nrow L)" 0 u] by simp
  then show ?thesis using Inr by (auto simp: create_unfold [OF assms])
qed

text \<open>
  Claim C2. \<open>create\<close> ends in \<open>QDP_error_exit\<close> when the library is not initialized, and when
  it is but the stored lattice size has not \<open>Nd\<close> components. Otherwise it sweeps the
  indices \<open>[0, vol)\<close>, \<open>vol\<close> the volume that it has just stored (the product of the extents
  as the 32-bit \<open>int\<close> holds it), and computes
  \<open>j = linearSiteIndex(siteCoords(nodeNumber(), i))\<close> for each: it completes normally only
  if \<open>j = i\<close> at every index of \<open>[0, vol)\<close>, and it ends in \<open>QDP_error_exit\<close> when some index
  has \<open>j \<noteq> i\<close> (and no index runs into undefined behaviour, of which the claim does not
  speak). The iterations of the sweep do not depend on each other, so the sequential
  loop of the model stands for the OpenMP loop.
\<close>

theorem create_outcomes:
  "(\<not> initialized \<longrightarrow>
      create k Nd initialized L = Inl (QDP_error_exit ''QDP is not initialized''))
   \<and> (initialized \<and> length (nrow L) \<noteq> Nd \<longrightarrow>
      create k Nd initialized L
        = Inl (QDP_error_exit ''dimension of lattice size not the same as the default''))
   \<and> (initialized \<and> length (nrow L) = Nd \<longrightarrow>
      ((\<exists>L'. create k Nd initialized L = Inr L') \<longrightarrow>
         (\<forall>i. 0 \<le> i \<and> i < vol (created_layout (nrow L))
            \<longrightarrow> round_trip k Nd (created_layout (nrow L)) i = Some i))
      \<and> ((\<forall>i. 0 \<le> i \<and> i < vol (created_layout (nrow L))
            \<longrightarrow> round_trip k Nd (created_layout (nrow L)) i \<noteq> None)
         \<and> (\<exists>i. 0 \<le> i \<and> i < vol (created_layout (nrow L))
            \<and> round_trip k Nd (created_layout (nrow L)) i \<noteq> Some i)
         \<longrightarrow> create k Nd initialized L
               = Inl (QDP_error_exit ''Layout::create - Layout problems, the layout functions do not work correctly with this lattice size''))
      \<and> vol (created_layout (nrow L)) = int32 (prod_list (nrow L)))"
proof (intro conjI impI)
  assume "\<not> initialized"
  then show "create k Nd initialized L = Inl (QDP_error_exit ''QDP is not initialized'')"
    by (simp add: create_not_initialized)
next
  assume "initialized \<and> length (nrow L) \<noteq> Nd"
  then show "create k Nd initialized L
      = Inl (QDP_error_exit ''dimension of lattice size not the same as the default'')"
    by (simp add: create_wrong_dimension)
next
  assume "initialized \<and> length (nrow L) = Nd" and "\<exists>L'. create k Nd initialized L = Inr L'"
  then show "\<forall>i. 0 \<le> i \<and> i < vol (created_layout (nrow L))
            \<longrightarrow> round_trip k Nd (created_layout (nrow L)) i = Some i"
    by (simp add: create_Inr_iff)
next
  assume a: "initialized \<and> length (nrow L) = Nd"
    and b: "(\<forall>i. 0 \<le> i \<and> i < vol (created_layout (nrow L))
            \<longrightarrow> round_trip k Nd (created_layout (nrow L)) i \<noteq> None)
         \<and> (\<exists>i. 0 \<le> i \<and> i < vol (created_layout (nrow L))
            \<and> round_trip k Nd (created_layout (nrow L)) i \<noteq> Some i)"
  have "sanity_check k Nd (created_layout (nrow L)) 0
      = Inl (QDP_error_exit ''Layout::create - Layout problems, the layout functions do not work correctly with this lattice size'')"
    by (rule sanity_check_fatal) (use b in simp_all)
  then show "create k Nd initialized L
      = Inl (QDP_error_exit ''Layout::create - Layout problems, the layout functions do not work correctly with this lattice size'')"
    using a by (simp add: create_unfold)
next
  show "vol (created_layout (nrow L)) = int32 (prod_list (nrow L))"
    by (rule vol_created_layout)
qed

theorem create_outcomes_witness:
  "create CB2_LAYOUT 2 False (setLattSize [4, 2] initial_layout)
     = Inl (QDP_error_exit ''QDP is not initialized'')
   \<and> length (nrow (setLattSize [4, 2, 2] initial_layout)) \<noteq> 2
   \<and> create CB2_LAYOUT 2 True (setLattSize [4, 2, 2] initial_layout)
     = Inl (QDP_error_exit ''dimension of lattice size not the same as the default'')
   \<and> length (nrow (setLattSize [4, 2] initial_layout)) = 2
   \<and> create CB2_LAYOUT 2 True (setLattSize [4, 2] initial_layout) = Inr (created_layout [4, 2])
   \<and> vol (created_layout (nrow (setLattSize [4, 2] initial_layout))) = 8
   \<and> round_trip CB2_LAYOUT 2 (created_layout (nrow (setLattSize [4, 2] initial_layout))) 5 = Some 5
   \<and> length (nrow (setLattSize [3, 2] initial_layout)) = 2
   \<and> vol (created_layout (nrow (setLattSize [3, 2] initial_layout))) = 6
   \<and> round_trip CB2_LAYOUT 2 (created_layout (nrow (setLattSize [3, 2] initial_layout))) 2 \<noteq> Some 2
   \<and> create CB2_LAYOUT 2 True (setLattSize [3, 2] initial_layout)
     = Inl (QDP_error_exit ''Layout::create - Layout problems, the layout functions do not work correctly with this lattice size'')
   \<and> vol (created_layout (nrow (setLattSize [3, 2048, 2048, 1024] initial_layout))) = 0
   \<and> create CB2_LAYOUT 4 True (setLattSize [3, 2048, 2048, 1024] initial_layout)
     = Inr (created_layout [3, 2048, 2048, 1024])"
proof -
  let ?A = "setLattSize [4, 2] initial_layout"
  let ?B = "setLattSize [4, 2, 2] initial_layout"
  let ?C = "setLattSize [3, 2] initial_layout"
  let ?D = "setLattSize [3, 2048, 2048, 1024] initial_layout"
  have 1: "create CB2_LAYOUT 2 False ?A = Inl (QDP_error_exit ''QDP is not initialized'')"
    using create_outcomes [of False CB2_LAYOUT 2 ?A] by simp
  have b: "length (nrow ?B) \<noteq> 2" by code_simp
  have 2: "create CB2_LAYOUT 2 True ?B
      = Inl (QDP_error_exit ''dimension of lattice size not the same as the default'')"
    using create_outcomes [of True CB2_LAYOUT 2 ?B] b by simp
  have a: "length (nrow ?A) = 2" by code_simp
  have ok: "create CB2_LAYOUT 2 True ?A = Inr (created_layout [4, 2])" by code_simp
  have volA: "vol (created_layout (nrow ?A)) = 8" by code_simp
  have "\<forall>i. 0 \<le> i \<and> i < vol (created_layout (nrow ?A))
      \<longrightarrow> round_trip CB2_LAYOUT 2 (created_layout (nrow ?A)) i = Some i"
    using create_outcomes [of True CB2_LAYOUT 2 ?A] a ok by blast
  then have 3: "round_trip CB2_LAYOUT 2 (created_layout (nrow ?A)) 5 = Some 5"
    unfolding volA by simp
  have c: "length (nrow ?C) = 2" by code_simp
  have vol: "vol (created_layout (nrow ?C)) = 6" by code_simp
  have e: "round_trip CB2_LAYOUT 2 (created_layout (nrow ?C)) 0 \<noteq> None"
    "round_trip CB2_LAYOUT 2 (created_layout (nrow ?C)) 1 \<noteq> None"
    "round_trip CB2_LAYOUT 2 (created_layout (nrow ?C)) 2 \<noteq> None"
    "round_trip CB2_LAYOUT 2 (created_layout (nrow ?C)) 3 \<noteq> None"
    "round_trip CB2_LAYOUT 2 (created_layout (nrow ?C)) 4 \<noteq> None"
    "round_trip CB2_LAYOUT 2 (created_layout (nrow ?C)) 5 \<noteq> None"
    by code_simp+
  have def: "\<forall>i. 0 \<le> i \<and> i < vol (created_layout (nrow ?C))
      \<longrightarrow> round_trip CB2_LAYOUT 2 (created_layout (nrow ?C)) i \<noteq> None"
  proof (intro allI impI)
    fix i :: int
    assume "0 \<le> i \<and> i < vol (created_layout (nrow ?C))"
    then have "i = 0 \<or> i = 1 \<or> i = 2 \<or> i = 3 \<or> i = 4 \<or> i = 5" unfolding vol by arith
    then show "round_trip CB2_LAYOUT 2 (created_layout (nrow ?C)) i \<noteq> None" using e by blast
  qed
  have bad: "round_trip CB2_LAYOUT 2 (created_layout (nrow ?C)) 2 \<noteq> Some 2" by code_simp
  then have "\<exists>i. 0 \<le> i \<and> i < vol (created_layout (nrow ?C))
      \<and> round_trip CB2_LAYOUT 2 (created_layout (nrow ?C)) i \<noteq> Some i"
    unfolding vol by (intro exI [of _ 2]) simp
  with def have 4: "create CB2_LAYOUT 2 True ?C
      = Inl (QDP_error_exit ''Layout::create - Layout problems, the layout functions do not work correctly with this lattice size'')"
    using create_outcomes [of True CB2_LAYOUT 2 ?C] c by blast
  have volD: "vol (created_layout (nrow ?D)) = 0" by code_simp
  have 5: "create CB2_LAYOUT 4 True ?D = Inr (created_layout [3, 2048, 2048, 1024])"
    by code_simp
  show ?thesis using 1 b 2 a ok volA 3 c vol bad 4 volD 5 by blast
qed




subsection \<open>The map object in memory\<close>

text \<open>
  Claim C9. \<open>insert\<close> updates and always succeeds: it returns 0; the entry under the
  serialized key holds \<open>val\<close> afterwards and the other entries are as before; when an entry
  with the same serialized key was there, the number of entries and \<open>size()\<close> are
  unchanged, otherwise both grow by 1 (\<open>size()\<close> as the \<open>unsigned int\<close> it is); and a
  \<open>get\<close> of the key afterwards returns 0 and the value \<open>val\<close>, whatever \<open>v\<close> held before.
\<close>

theorem insert_updates:
  "fst (insert_mo ser key val M) = 0
   \<and> src_map (snd (insert_mo ser key val M)) = fmupd (ser key) val (src_map M)
   \<and> get ser key v (snd (insert_mo ser key val M)) = (0, val, snd (insert_mo ser key val M))
   \<and> (fst (exist ser key M) \<longrightarrow>
        fcard (fmdom (src_map (snd (insert_mo ser key val M)))) = fcard (fmdom (src_map M))
        \<and> size_mo (snd (insert_mo ser key val M)) = size_mo M)
   \<and> (\<not> fst (exist ser key M) \<longrightarrow>
        fcard (fmdom (src_map (snd (insert_mo ser key val M)))) = fcard (fmdom (src_map M)) + 1
        \<and> size_mo (snd (insert_mo ser key val M)) = size_mo M + 1)"
  by (auto simp: insert_mo_def get_def exist_def size_mo_def Let_def fcard_finsert_if
      fmdom_notI fmdom_notD split: option.splits)

theorem insert_updates_witness:
  "\<not> fst (exist id ''a'' \<lparr>src_map = fmempty, user_data = ''''\<rparr>)
   \<and> size_mo (snd (insert_mo id ''a'' (1::int) \<lparr>src_map = fmempty, user_data = ''''\<rparr>)) = 1
   \<and> fst (exist id ''a'' \<lparr>src_map = fmupd ''a'' (1::int) fmempty, user_data = ''''\<rparr>)
   \<and> size_mo (snd (insert_mo id ''a'' 2 \<lparr>src_map = fmupd ''a'' (1::int) fmempty, user_data = ''''\<rparr>)) = 1"
  using insert_updates [of id "''a''" "1::int" "\<lparr>src_map = fmempty, user_data = ''''\<rparr>" 0]
    insert_updates [of id "''a''" "2::int" "\<lparr>src_map = fmupd ''a'' (1::int) fmempty, user_data = ''''\<rparr>" 0]
  by (simp add: exist_def size_mo_def fcard_finsert_if fcard_fempty)

text \<open>
  Claim C10. For a key whose serialization has no entry, \<open>get\<close> returns 1 and leaves \<open>val\<close>
  as it was, \<open>exist\<close> returns false and \<open>erase\<close> leaves the object unchanged; for a key
  whose serialization has the entry \<open>v\<close>, \<open>get\<close> returns 0 and \<open>val\<close> holds \<open>v\<close>, and \<open>exist\<close>
  returns true. Neither \<open>get\<close> nor \<open>exist\<close> changes the object.
\<close>

theorem get_exist_erase:
  "(fmlookup (src_map M) (ser key) = None \<longrightarrow>
      get ser key val M = (1, val, M) \<and> fst (exist ser key M) = False \<and> erase ser key M = M)
   \<and> (\<forall>v. fmlookup (src_map M) (ser key) = Some v \<longrightarrow>
      get ser key val M = (0, v, M) \<and> fst (exist ser key M) = True)
   \<and> snd (snd (get ser key val M)) = M \<and> snd (exist ser key M) = M"
  by (auto simp: get_def exist_def erase_def split: option.splits)

theorem get_exist_erase_witness:
  "fmlookup (src_map \<lparr>src_map = fmupd ''a'' (1::int) fmempty, user_data = ''''\<rparr>) (id ''b'') = None
   \<and> get id ''b'' 7 \<lparr>src_map = fmupd ''a'' (1::int) fmempty, user_data = ''''\<rparr>
       = (1, 7, \<lparr>src_map = fmupd ''a'' 1 fmempty, user_data = ''''\<rparr>)
   \<and> erase id ''b'' \<lparr>src_map = fmupd ''a'' (1::int) fmempty, user_data = ''''\<rparr>
       = \<lparr>src_map = fmupd ''a'' 1 fmempty, user_data = ''''\<rparr>
   \<and> fmlookup (src_map \<lparr>src_map = fmupd ''a'' (1::int) fmempty, user_data = ''''\<rparr>) (id ''a'') = Some 1
   \<and> get id ''a'' 7 \<lparr>src_map = fmupd ''a'' (1::int) fmempty, user_data = ''''\<rparr>
       = (0, 1, \<lparr>src_map = fmupd ''a'' 1 fmempty, user_data = ''''\<rparr>)"
  using get_exist_erase [of "\<lparr>src_map = fmupd ''a'' (1::int) fmempty, user_data = ''''\<rparr>" id "''b''" 7]
    get_exist_erase [of "\<lparr>src_map = fmupd ''a'' (1::int) fmempty, user_data = ''''\<rparr>" id "''a''" 7]
  by simp

end
